theory Spec2Isabelle
  imports Complex_Main
begin

section \<open>Errors\<close>

text \<open>
  Every exception the modelled Python can raise is a value. \<open>SystemExit\<close> is what
  \<^verbatim>\<open>sys.exit(msg)\<close> raises and carries the message; the others are the built-in
  exceptions of Python, numpy, pandas and scikit-learn that the modelled code can reach.
  \<open>BackendError\<close> stands for whatever the forecasting backend raises.
\<close>

datatype error =
    SystemExit string
  | IndexError
  | ZeroDivisionError
  | ValueError
  | KeyError
  | TypeError
  | BackendError

section \<open>The summing matrix (\<^verbatim>\<open>SummingMat\<close>, hts.py lines 92-126)\<close>

text \<open>
  The entries of the arrays built by \<^verbatim>\<open>SummingMat\<close> are the float64 values 0.0 and 1.0
  and sums of them, that is small natural numbers, which float64 represents exactly; they
  are modelled as \<open>nat\<close>. The sibling counts in \<^verbatim>\<open>nodes\<close> are natural numbers.

  numpy distinguishes a 1-D array of shape \<open>(n,)\<close> from a 2-D array of shape \<open>(k, n)\<close>,
  and the code depends on the difference, so both are kept.
\<close>

datatype ndarray = Arr1 "nat list" | Arr2 "nat list list"

definition np_ones :: "nat \<Rightarrow> nat list" where
  "np_ones n = replicate n 1"

definition np_zeros :: "nat \<Rightarrow> nat list" where
  "np_zeros n = replicate n 0"

definition np_identity :: "nat \<Rightarrow> nat list list" where
  "np_identity n = map (\<lambda>i. map (\<lambda>j. if i = j then 1 else 0) [0..<n]) [0..<n]"

text \<open>\<^verbatim>\<open>a.sum(axis = 0)\<close> for \<open>a\<close> of shape \<open>(k, n)\<close>: the column sums, the zero vector of
  length \<open>n\<close> when \<open>a\<close> has no rows.\<close>

definition sum_axis0 :: "nat \<Rightarrow> nat list list \<Rightarrow> nat list" where
  "sum_axis0 n a = foldr (\<lambda>r acc. map2 (+) r acc) a (replicate n 0)"

text \<open>\<^verbatim>\<open>np.all(B == 0)\<close>.\<close>

fun np_all_zero :: "ndarray \<Rightarrow> bool" where
  "np_all_zero (Arr1 v) = list_all (\<lambda>x. x = 0) v"
| "np_all_zero (Arr2 m) = list_all (list_all (\<lambda>x. x = 0)) m"

text \<open>\<^verbatim>\<open>np.vstack((B, r))\<close> for a 1-D row \<open>r\<close>: a 1-D \<open>B\<close> becomes the first of two rows.\<close>

fun np_vstack_row :: "ndarray \<Rightarrow> nat list \<Rightarrow> ndarray" where
  "np_vstack_row (Arr1 v) r = Arr2 [v, r]"
| "np_vstack_row (Arr2 m) r = Arr2 (m @ [r])"

text \<open>The rows that \<^verbatim>\<open>np.vstack\<close> makes of an array: a 1-D array is one row.\<close>

fun rows_of :: "ndarray \<Rightarrow> nat list list" where
  "rows_of (Arr1 v) = [v]"
| "rows_of (Arr2 m) = m"

text \<open>
  The inner loop, lines 112-119. \<^verbatim>\<open>blMat[count:num2sumInd, :]\<close> raises IndexError (too
  many indices) when \<open>blMat\<close> is 1-D; on a 2-D array the slice is clipped to the rows
  there are. \<open>B\<close> starts as the zero vector, and the test \<^verbatim>\<open>np.all(B == 0)\<close> decides
  between replacing \<open>B\<close> and stacking under it.
\<close>

fun sum_groups ::
  "nat \<Rightarrow> ndarray \<Rightarrow> nat list \<Rightarrow> nat \<Rightarrow> nat \<Rightarrow> ndarray \<Rightarrow> error + ndarray" where
  "sum_groups n blMat [] count num2sumInd B = Inr B"
| "sum_groups n blMat (num2sum # summing) count num2sumInd B =
     (case blMat of
        Arr1 v \<Rightarrow> Inl IndexError
      | Arr2 m \<Rightarrow>
          (let num2sumInd' = num2sumInd + num2sum;
               a = take (num2sumInd' - count) (drop count m);
               count' = count + num2sum;
               B' = (if np_all_zero B then Arr1 (sum_axis0 n a)
                     else np_vstack_row B (sum_axis0 n a))
           in sum_groups n blMat summing count' num2sumInd' B'))"

text \<open>
  The outer loop, lines 106-121, over \<^verbatim>\<open>lev in range(numLevs-1)\<close>. The state is
  \<open>(blMat, finalMat)\<close>. \<^verbatim>\<open>nodes[-(lev + 1)]\<close> is \<open>nodes ! (length nodes - (lev + 1))\<close>,
  always in range here.
\<close>

fun levels_loop ::
  "nat \<Rightarrow> nat list list \<Rightarrow> nat list \<Rightarrow> ndarray \<times> nat list list
     \<Rightarrow> error + ndarray \<times> nat list list" where
  "levels_loop n nodes [] st = Inr st"
| "levels_loop n nodes (lev # levs) (blMat, finalMat) =
     (let summing = nodes ! (length nodes - (lev + 1))
      in case sum_groups n blMat summing 0 0 (Arr1 (np_zeros n)) of
           Inl e \<Rightarrow> Inl e
         | Inr B \<Rightarrow> levels_loop n nodes levs (B, rows_of B @ finalMat))"

text \<open>\<^verbatim>\<open>numAtLev[-1]\<close> raises IndexError on an empty \<^verbatim>\<open>nodes\<close>.\<close>

definition SummingMat :: "nat list list \<Rightarrow> error + nat list list" where
  "SummingMat nodes =
     (if nodes = [] then Inl IndexError
      else
        let numAtLev = map sum_list nodes;
            numLevs = length numAtLev;
            top = np_ones (last numAtLev);
            blMat = np_identity (last numAtLev)
        in case levels_loop (last numAtLev) nodes [0..<numLevs - 1] (Arr2 blMat, blMat) of
             Inl e \<Rightarrow> Inl e
           | Inr (blMat', finalMat) \<Rightarrow> Inr (top # finalMat))"


subsection \<open>What the summing matrix is meant to be\<close>

text \<open>
  The tree that a topology descriptor \<open>nodes\<close> describes, by position alone (docstring of
  \<^verbatim>\<open>hts\<close>, lines 34-49): level \<open>0\<close> is the root, level \<open>j + 1\<close> holds the children of
  level \<open>j\<close>, siblings contiguous and in the order of their parents, and \<open>nodes ! j ! k\<close>
  is the number of children of node \<open>k\<close> of level \<open>j\<close>. The leaves are level
  \<open>length nodes\<close>. The number of nodes below the root is the sum of all the counts, which
  is what \<^verbatim>\<open>hts\<close> compares with the number of columns (line 136).
\<close>

definition leaf_count :: "nat list list \<Rightarrow> nat" where
  "leaf_count nodes = sum_list (last nodes)"

definition node_count :: "nat list list \<Rightarrow> nat" where
  "node_count nodes = 1 + sum_list (map sum_list nodes)"

definition level_size :: "nat list list \<Rightarrow> nat \<Rightarrow> nat" where
  "level_size nodes j = (if j = 0 then 1 else sum_list (nodes ! (j - 1)))"

text \<open>The children of node \<open>k\<close> of level \<open>j\<close>, as positions in level \<open>j + 1\<close>.\<close>

definition children :: "nat list list \<Rightarrow> nat \<Rightarrow> nat \<Rightarrow> nat list" where
  "children nodes j k =
     [sum_list (take k (nodes ! j))..<sum_list (take (Suc k) (nodes ! j))]"

text \<open>
  A topology descriptor (specification, section 3) has one count per node of each level:
  it is not empty, the root is one node, and every further level lists as many counts as
  the level above announces children.
\<close>

fun consistent :: "nat list list \<Rightarrow> bool" where
  "consistent (ns # ns' # below) = (length ns' = sum_list ns \<and> consistent (ns' # below))"
| "consistent [ns] = True"
| "consistent [] = True"

definition topology :: "nat list list \<Rightarrow> bool" where
  "topology nodes = (nodes \<noteq> [] \<and> length (hd nodes) = 1 \<and> consistent nodes)"

text \<open>
  Not a notion of the specification but of the code: the topology descriptors on which
  neither of the two slips of \<^verbatim>\<open>SummingMat\<close> fires. The test \<^verbatim>\<open>np.all(B == 0)\<close> of line 116
  takes a first group that sums to zero for the initial \<open>B\<close>, which positive counts
  exclude; and a level of a single node leaves \<open>blMat\<close> 1-D, which the slice of line 114
  in the next round does not accept, so every level that is summed again (level 2 and
  below, up to the one above the leaves) needs two nodes.
\<close>

definition slip_free :: "nat list list \<Rightarrow> bool" where
  "slip_free nodes =
     (topology nodes \<and>
      list_all (list_all (\<lambda>c. 0 < c)) nodes \<and>
      list_all (\<lambda>ns. 2 \<le> length ns) (drop 2 nodes))"

text \<open>
  \<open>leaf_pos below c\<close> is the position of the first leaf under node \<open>c\<close> of a level,
  \<open>below\<close> being the counts of that level and of the levels under it: the leaves under
  node \<open>c\<close> are those from \<open>leaf_pos below c\<close> up to \<open>leaf_pos below (c + 1)\<close>, excluded.
  The row of a node is the indicator vector of its leaves (spec, section 3).
\<close>

fun leaf_pos :: "nat list list \<Rightarrow> nat \<Rightarrow> nat" where
  "leaf_pos [] c = c"
| "leaf_pos (ns # below) c = leaf_pos below (sum_list (take c ns))"

definition indicator :: "nat \<Rightarrow> nat \<Rightarrow> nat \<Rightarrow> nat list" where
  "indicator n a b = map (\<lambda>i. if a \<le> i \<and> i < b then 1 else 0) [0..<n]"

definition node_row :: "nat list list \<Rightarrow> nat \<Rightarrow> nat \<Rightarrow> nat list" where
  "node_row nodes j k =
     indicator (leaf_count nodes) (leaf_pos (drop j nodes) k) (leaf_pos (drop j nodes) (Suc k))"

definition level_rows :: "nat list list \<Rightarrow> nat \<Rightarrow> nat list list" where
  "level_rows nodes j = map (node_row nodes j) [0..<level_size nodes j]"

text \<open>The rows in the order root, level 1, level 2, ..., leaves; and where the row of
  node \<open>k\<close> of level \<open>j\<close> stands in that order.\<close>

definition summing_spec :: "nat list list \<Rightarrow> nat list list" where
  "summing_spec nodes = concat (map (level_rows nodes) [0..<length nodes + 1])"

definition row_index :: "nat list list \<Rightarrow> nat \<Rightarrow> nat \<Rightarrow> nat" where
  "row_index nodes j k = sum_list (map (level_size nodes) [0..<j]) + k"

subsection \<open>Auxiliary notions for the proofs about \<open>SummingMat\<close>\<close>

text \<open>The rows that one run of the inner loop produces, from offset \<open>c\<close> on.\<close>

fun group_sums :: "nat \<Rightarrow> nat list list \<Rightarrow> nat list \<Rightarrow> nat \<Rightarrow> nat list list" where
  "group_sums n m [] c = []"
| "group_sums n m (k # ns) c = sum_axis0 n (take k (drop c m)) # group_sums n m ns (c + k)"

text \<open>The number of nodes of the level on top of \<open>below\<close>; \<open>n\<close> leaves when \<open>below\<close> is empty.\<close>

definition width :: "nat list list \<Rightarrow> nat \<Rightarrow> nat" where
  "width below n = (case below of [] \<Rightarrow> n | ns # _ \<Rightarrow> length ns)"

text \<open>The value of \<open>blMat\<close> and the loop state once level \<open>j\<close> has been built: numpy leaves
  a level of one node as a 1-D array.\<close>

definition level_array :: "nat list list \<Rightarrow> nat \<Rightarrow> ndarray" where
  "level_array nodes j =
     (if j < length nodes \<and> length (nodes ! j) = 1 then Arr1 (hd (level_rows nodes j))
      else Arr2 (level_rows nodes j))"

definition loop_state :: "nat list list \<Rightarrow> nat \<Rightarrow> ndarray \<times> nat list list" where
  "loop_state nodes j =
     (level_array nodes j, concat (map (level_rows nodes) [j..<Suc (length nodes)]))"

section \<open>The orchestrator (\<^verbatim>\<open>hts\<close>, hts.py lines 27-204)\<close>

subsection \<open>Data\<close>

text \<open>
  The wide table \<open>y\<close> is a pandas DataFrame; it is modelled by the list of its columns,
  each the list of its cells, column 0 being the time column, column 1 the total. A
  DataFrame is rectangular: all columns have the same length. The numbers of the table
  and of the forecasts are float64 in the source and exact reals here: rounding and
  overflow are outside the model. The results of a numpy division keep the values that
  IEEE arithmetic adds to the numbers, for numpy divides by zero without raising.
\<close>

type_synonym frame = "real list list"

datatype npfloat = Fin real | PosInf | NegInf | NaN

text \<open>
  \<^verbatim>\<open>cap\<close> and \<^verbatim>\<open>capF\<close>: not given (\<^verbatim>\<open>None\<close>), an int, a float, a DataFrame (of which
  only the number of columns matters) or a value of any other type.
\<close>

datatype cap = CapNone | CapInt | CapFloat | CapFrame nat | CapOther

text \<open>
  The forecasting backend \<^verbatim>\<open>fitForecast\<close> is imported from another module
  (\<^verbatim>\<open>htsprophet.fitForecast\<close>) and is a parameter of the model. A call is recorded with
  the arguments that \<^verbatim>\<open>hts\<close> computes: the table, the horizon, the summing matrix, the
  descriptor and the method; the remaining arguments are handed over unchanged. The
  backend returns a dictionary from integer keys to forecast tables, of which \<^verbatim>\<open>hts\<close>
  reads the keys and the \<^verbatim>\<open>yhat\<close> column; or it raises.
\<close>

record call =
  call_y :: frame
  call_h :: int
  call_sumMat :: "nat list list"
  call_nodes :: "nat list list"
  call_method :: string

type_synonym forecasts = "(nat \<times> real list) list"

type_synonym backend = "call \<Rightarrow> error + forecasts"

text \<open>What a run of \<^verbatim>\<open>hts\<close> leaves: the backend calls made, in order; the lines
  printed; and the value returned or the exception raised.\<close>

type_synonym outcome = "call list \<times> string list \<times> (error + forecasts)"

subsection \<open>Validation, lines 130-147\<close>

text \<open>The checks in the order of the source; \<open>None\<close> when all pass. The longer
  messages are cut short.\<close>

definition hts_checks ::
  "frame \<Rightarrow> int \<Rightarrow> nat list list \<Rightarrow> string \<Rightarrow> cap \<Rightarrow> cap \<Rightarrow> error option" where
  "hts_checks y h nodes method cap capF =
     (if h < 1 then
        Some (SystemExit ''you must set h (number of step-ahead forecasts) to a positive number'')
      else if method \<notin> set [''OC'', ''FP'', ''PHA'', ''AHP'', ''BU'', ''cvSelect''] then
        Some (SystemExit ''not a valid method input'')
      else if length nodes < 1 then
        Some (SystemExit ''nodes input should at least be of length 1'')
      else if int (sum_list (map sum_list nodes)) \<noteq> int (length y) - 2 then
        Some (SystemExit ''The sum of the nodes list does not equal the number of columns - 2'')
      else if cap = CapOther then
        Some (SystemExit ''cap should be a constant (float or int) or a DataFrame, or not specified'')
      else if capF = CapOther then
        Some (SystemExit ''capF should be a constant (float or int) or a DataFrame, or not specified'')
      else if (case cap of CapFrame k \<Rightarrow> int k \<noteq> int (length y) - 1 | _ \<Rightarrow> False) then
        Some (SystemExit ''If cap is a DataFrame, it should have a number of columns equal to the input Dataframe - 1'')
      else if (case capF of CapFrame k \<Rightarrow> int k \<noteq> int (length y) - 1 | _ \<Rightarrow> False) then
        Some (SystemExit ''If capF is a DataFrame, it should have a number of columns equal to the input Dataframe - 1'')
      else None)"

subsection \<open>Table access and arithmetic\<close>

text \<open>\<^verbatim>\<open>y.iloc[rows, c].values\<close>: IndexError out of bounds.\<close>

definition iloc :: "frame \<Rightarrow> nat list \<Rightarrow> nat \<Rightarrow> error + real list" where
  "iloc y rows c =
     (if c < length y \<and> list_all (\<lambda>i. i < length (y ! c)) rows
      then Inr (map (\<lambda>i. y ! c ! i) rows) else Inl IndexError)"

text \<open>\<^verbatim>\<open>y.iloc[rows, :]\<close>, for row positions that the table has.\<close>

definition iloc_rows :: "frame \<Rightarrow> nat list \<Rightarrow> frame" where
  "iloc_rows y rows = map (\<lambda>col. map (\<lambda>i. col ! i) rows) y"

text \<open>\<^verbatim>\<open>xs[-n:]\<close> for \<open>n \<ge> 0\<close>: the last \<open>n\<close> entries, all of \<open>xs\<close> when there are fewer,
  and all of \<open>xs\<close> when \<open>n = 0\<close>.\<close>

definition last_n :: "nat \<Rightarrow> 'a list \<Rightarrow> 'a list" where
  "last_n n xs = (if n = 0 then xs else drop (length xs - n) xs)"

text \<open>The difference of two 1-D numpy arrays: a length-1 operand is broadcast, other
  unequal lengths raise ValueError.\<close>

definition np_sub :: "real list \<Rightarrow> real list \<Rightarrow> error + real list" where
  "np_sub a b =
     (if length a = length b then Inr (map2 (-) a b)
      else if length a = 1 then Inr (map (\<lambda>x. hd a - x) b)
      else if length b = 1 then Inr (map (\<lambda>x. x - hd b) a)
      else Inl ValueError)"

text \<open>Python's \<^verbatim>\<open>/\<close> on two ints raises ZeroDivisionError.\<close>

definition py_true_div :: "int \<Rightarrow> int \<Rightarrow> error + real" where
  "py_true_div a b = (if b = 0 then Inl ZeroDivisionError else Inr (real_of_int a / real_of_int b))"

text \<open>numpy's \<^verbatim>\<open>/\<close> on float64 scalars returns inf or nan (with a warning) on a zero
  divisor.\<close>

definition np_div :: "real \<Rightarrow> real \<Rightarrow> npfloat" where
  "np_div a b =
     (if b \<noteq> 0 then Fin (a / b)
      else if a = 0 then NaN else if 0 < a then PosInf else NegInf)"

fun np_add :: "npfloat \<Rightarrow> npfloat \<Rightarrow> npfloat" where
  "np_add NaN b = NaN"
| "np_add a NaN = NaN"
| "np_add PosInf NegInf = NaN"
| "np_add NegInf PosInf = NaN"
| "np_add PosInf b = PosInf"
| "np_add a PosInf = PosInf"
| "np_add NegInf b = NegInf"
| "np_add a NegInf = NegInf"
| "np_add (Fin a) (Fin b) = Fin (a + b)"

text \<open>\<^verbatim>\<open>np.mean\<close> of a list of float64: nan (with a warning) for the empty list.\<close>

definition np_mean :: "npfloat list \<Rightarrow> npfloat" where
  "np_mean xs =
     (if xs = [] then NaN
      else case foldl np_add (Fin 0) xs of
             Fin s \<Rightarrow> Fin (s / real (length xs))
           | v \<Rightarrow> v)"

text \<open>The comparison \<^verbatim>\<open><\<close> of float64: false whenever an operand is nan.\<close>

fun np_less :: "npfloat \<Rightarrow> npfloat \<Rightarrow> bool" where
  "np_less NaN b = False"
| "np_less a NaN = False"
| "np_less (Fin a) (Fin b) = (a < b)"
| "np_less NegInf NegInf = False"
| "np_less NegInf b = True"
| "np_less a NegInf = False"
| "np_less PosInf b = False"
| "np_less a PosInf = True"

text \<open>
  Python's \<^verbatim>\<open>min\<close> keeps the first item and replaces it by a later one that is \<^verbatim>\<open><\<close> it;
  it raises ValueError on an empty list. \<^verbatim>\<open>list.index\<close> returns the first position whose
  item is the object looked for or equals it. \<^verbatim>\<open>min\<close> returns nan only when the first
  item is nan, and then \<^verbatim>\<open>index\<close> finds that same object at position 0, so comparing by
  the constructors agrees with Python here.
\<close>

definition py_min :: "npfloat list \<Rightarrow> npfloat" where
  "py_min xs = fold (\<lambda>x m. if np_less x m then x else m) (tl xs) (hd xs)"

fun py_index :: "'a list \<Rightarrow> 'a \<Rightarrow> nat" where
  "py_index [] v = 0"
| "py_index (x # xs) v = (if x = v then 0 else Suc (py_index xs v))"

subsection \<open>The error measure, lines 183-187\<close>

text \<open>
  One MASE value: \<^verbatim>\<open>sum(abs(ynew[key].yhat[-len(testIndex):].values -
  y.iloc[testIndex, key+1].values)) / ((len(testIndex)/(len(testIndex)-1)) *
  sum(abs(y.iloc[testIndex[1:], key + 1].values - y.iloc[testIndex[:-1], key + 1].values)))\<close>.
  Python evaluates the dividend, then the divisor, each from left to right.
\<close>

definition mase_dividend :: "real list \<Rightarrow> frame \<Rightarrow> nat list \<Rightarrow> nat \<Rightarrow> error + real" where
  "mase_dividend yhat y testIndex key =
     (case iloc y testIndex (key + 1) of
        Inl e \<Rightarrow> Inl e
      | Inr actual \<Rightarrow>
          (case np_sub (last_n (length testIndex) yhat) actual of
             Inl e \<Rightarrow> Inl e
           | Inr d \<Rightarrow> Inr (sum_list (map abs d))))"

definition mase_divisor :: "frame \<Rightarrow> nat list \<Rightarrow> nat \<Rightarrow> error + real" where
  "mase_divisor y testIndex key =
     (case py_true_div (int (length testIndex)) (int (length testIndex) - 1) of
        Inl e \<Rightarrow> Inl e
      | Inr ratio \<Rightarrow>
          (case iloc y (tl testIndex) (key + 1) of
             Inl e \<Rightarrow> Inl e
           | Inr a1 \<Rightarrow>
               (case iloc y (butlast testIndex) (key + 1) of
                  Inl e \<Rightarrow> Inl e
                | Inr a0 \<Rightarrow>
                    (case np_sub a1 a0 of
                       Inl e \<Rightarrow> Inl e
                     | Inr d \<Rightarrow> Inr (ratio * sum_list (map abs d))))))"

definition mase :: "real list \<Rightarrow> frame \<Rightarrow> nat list \<Rightarrow> nat \<Rightarrow> error + npfloat" where
  "mase yhat y testIndex key =
     (case mase_dividend yhat y testIndex key of
        Inl e \<Rightarrow> Inl e
      | Inr a \<Rightarrow>
          (case mase_divisor y testIndex key of
             Inl e \<Rightarrow> Inl e
           | Inr b \<Rightarrow> Inr (np_div a b)))"

text \<open>\<^verbatim>\<open>ynew[key]\<close> raises KeyError when the dictionary has no such key.\<close>

definition mase_key :: "forecasts \<Rightarrow> frame \<Rightarrow> nat list \<Rightarrow> nat \<Rightarrow> error + npfloat" where
  "mase_key ynew y testIndex key =
     (case map_of ynew key of
        None \<Rightarrow> Inl KeyError
      | Some yhat \<Rightarrow> mase yhat y testIndex key)"

subsection \<open>Cross-validated selection, lines 155-196\<close>

definition methodList :: "string list" where
  "methodList = [''OC'', ''FP'', ''PHA'', ''AHP'', ''BU'']"

text \<open>
  \<^verbatim>\<open>TimeSeriesSplit(n_splits=3).split(X)\<close> of scikit-learn, on \<open>n_samples\<close> rows: ValueError
  when there are fewer rows than folds, else the three pairs of train and test positions.
\<close>

definition TimeSeriesSplit3 :: "nat \<Rightarrow> error + (nat list \<times> nat list) list" where
  "TimeSeriesSplit3 n_samples =
     (let n_splits = 3; n_folds = n_splits + 1
      in if n_folds > n_samples then Inl ValueError
         else
           let test_size = n_samples div n_folds;
               test_starts =
                 map (\<lambda>i. n_samples - n_splits * test_size + i * test_size) [0..<n_splits]
           in Inr (map (\<lambda>s. ([0..<s], [s..<s + test_size])) test_starts))"

text \<open>
  The five calls of lines 167-181 on the train rows, one per method of \<open>methodList\<close> in
  order; the first one that raises ends the run.
\<close>

fun fit_all ::
  "backend \<Rightarrow> frame \<Rightarrow> int \<Rightarrow> nat list list \<Rightarrow> nat list list \<Rightarrow> string list \<Rightarrow> call list
     \<Rightarrow> call list \<times> (error + forecasts list)" where
  "fit_all fitForecast ytrain h sumMat nodes [] calls = (calls, Inr [])"
| "fit_all fitForecast ytrain h sumMat nodes (m # ms) calls =
     (let c = \<lparr>call_y = ytrain, call_h = h, call_sumMat = sumMat, call_nodes = nodes,
                call_method = m\<rparr>
      in case fitForecast c of
           Inl e \<Rightarrow> (calls @ [c], Inl e)
         | Inr ynew \<Rightarrow>
             (case fit_all fitForecast ytrain h sumMat nodes ms (calls @ [c]) of
                (calls', Inl e) \<Rightarrow> (calls', Inl e)
              | (calls', Inr ynews) \<Rightarrow> (calls', Inr (ynew # ynews))))"

text \<open>
  Lines 183-187 for one key: \<open>MASE1\<close>, ..., \<open>MASE5\<close> each receive one value, computed from
  \<open>ynew1\<close>, ..., \<open>ynew5\<close> in this order. The accumulators are the list \<open>acc\<close>.
\<close>

fun append_mases ::
  "frame \<Rightarrow> nat list \<Rightarrow> nat \<Rightarrow> forecasts list \<Rightarrow> npfloat list list
     \<Rightarrow> error + npfloat list list" where
  "append_mases y testIndex key (ynew # ynews) (MASE # acc) =
     (case mase_key ynew y testIndex key of
        Inl e \<Rightarrow> Inl e
      | Inr v \<Rightarrow>
          (case append_mases y testIndex key ynews acc of
             Inl e \<Rightarrow> Inl e
           | Inr acc' \<Rightarrow> Inr ((MASE @ [v]) # acc')))"
| "append_mases y testIndex key ynews acc = Inr acc"

text \<open>The loop of line 182, \<^verbatim>\<open>for key in ynew1.keys()\<close>.\<close>

fun score_keys ::
  "frame \<Rightarrow> nat list \<Rightarrow> forecasts list \<Rightarrow> nat list \<Rightarrow> npfloat list list
     \<Rightarrow> error + npfloat list list" where
  "score_keys y testIndex ynews [] acc = Inr acc"
| "score_keys y testIndex ynews (key # keys) acc =
     (case append_mases y testIndex key ynews acc of
        Inl e \<Rightarrow> Inl e
      | Inr acc' \<Rightarrow> score_keys y testIndex ynews keys acc')"

text \<open>The loop of line 166 over the folds.\<close>

fun cv_folds ::
  "backend \<Rightarrow> frame \<Rightarrow> nat list list \<Rightarrow> nat list list \<Rightarrow> (nat list \<times> nat list) list
     \<Rightarrow> call list \<Rightarrow> npfloat list list \<Rightarrow> call list \<times> (error + npfloat list list)" where
  "cv_folds fitForecast y sumMat nodes [] calls acc = (calls, Inr acc)"
| "cv_folds fitForecast y sumMat nodes ((trainIndex, testIndex) # folds) calls acc =
     (case fit_all fitForecast (iloc_rows y trainIndex) (int (length testIndex)) sumMat nodes
             methodList calls of
        (calls', Inl e) \<Rightarrow> (calls', Inl e)
      | (calls', Inr ynews) \<Rightarrow>
          (case score_keys y testIndex ynews (map fst (hd ynews)) acc of
             Inl e \<Rightarrow> (calls', Inl e)
           | Inr acc' \<Rightarrow> cv_folds fitForecast y sumMat nodes folds calls' acc'))"

text \<open>Lines 191-192: the averages and the method chosen from them.\<close>

definition cv_choice :: "npfloat list list \<Rightarrow> string" where
  "cv_choice MASEs =
     (let choices = map np_mean MASEs
      in methodList ! py_index choices (py_min choices))"

subsection \<open>\<^verbatim>\<open>hts\<close>\<close>

text \<open>\<^verbatim>\<open>y.iloc[:,0]\<close> raises IndexError on a table without columns; its length is the
  number of rows.\<close>

definition hts ::
  "backend \<Rightarrow> frame \<Rightarrow> int \<Rightarrow> nat list list \<Rightarrow> string \<Rightarrow> cap \<Rightarrow> cap \<Rightarrow> outcome" where
  "hts fitForecast y h nodes method cap capF =
     (case hts_checks y h nodes method cap capF of
        Some e \<Rightarrow> ([], [], Inl e)
      | None \<Rightarrow>
          if method = ''cvSelect'' then
            (case SummingMat nodes of
               Inl e \<Rightarrow> ([], [], Inl e)
             | Inr sumMat \<Rightarrow>
                 (case y of
                    [] \<Rightarrow> ([], [], Inl IndexError)
                  | time # cols \<Rightarrow>
                      (case TimeSeriesSplit3 (length time) of
                         Inl e \<Rightarrow> ([], [], Inl e)
                       | Inr folds \<Rightarrow>
                           (case cv_folds fitForecast y sumMat nodes folds [] (replicate 5 []) of
                              (calls, Inl e) \<Rightarrow> (calls, [], Inl e)
                            | (calls, Inr MASEs) \<Rightarrow>
                                (let choice = cv_choice MASEs;
                                     c = \<lparr>call_y = y, call_h = h, call_sumMat = sumMat,
                                          call_nodes = nodes, call_method = choice\<rparr>
                                 in case fitForecast c of
                                      Inl e \<Rightarrow> (calls @ [c], [], Inl e)
                                    | Inr ynew \<Rightarrow> (calls @ [c], [choice], Inr ynew))))))
          else
            (case SummingMat nodes of
               Inl e \<Rightarrow> ([], [], Inl e)
             | Inr sumMat \<Rightarrow>
                 (let c = \<lparr>call_y = y, call_h = h, call_sumMat = sumMat, call_nodes = nodes,
                           call_method = method\<rparr>
                  in ([c], [], fitForecast c))))"

section \<open>The hierarchy builder (\<^verbatim>\<open>orderHier\<close>, hts.py lines 223-434)\<close>

text \<open>
  The model covers the checks of the level assignments, the names of the columns of the
  table that \<^verbatim>\<open>orderHier\<close> builds, their reordering, and the descriptor \<^verbatim>\<open>nodes\<close>, for
  \<^verbatim>\<open>rmZeros = False\<close> (the default), where no column is dropped. The cells of the table
  do not influence any of these and are not modelled. \<^verbatim>\<open>data\<close> has a time column, the tag
  columns and one numeric value column, in this order, and is given by its tag columns
  \<open>tags\<close>, lists of strings of one length: \<^verbatim>\<open>data.iloc[:,i+1]\<close> is \<open>tags ! i\<close> for
  \<open>i < length tags\<close>, the value column for \<open>i = length tags\<close>, and out of bounds beyond.
  A level assignment is \<^verbatim>\<open>None\<close> or an int.

  The model follows the names, not pandas' handling of clashing labels nor the reuse of
  a key of \<^verbatim>\<open>allDataframes\<close>. \<open>plain_tags\<close> is a condition under which neither occurs: no tag
  value contains an underscore, none is \<^verbatim>\<open>time\<close>, \<^verbatim>\<open>total\<close> or the name \<open>numCol\<close> of the
  value column, none is another tag value followed by \<^verbatim>\<open>1\<close> (line 316 stores the series
  of the level-1 value \<open>v\<close> under the key \<^verbatim>\<open>v+'1'\<close>), and \<open>numCol\<close> has no underscore.
\<close>

definition plain_tags :: "string \<Rightarrow> string list list \<Rightarrow> bool" where
  "plain_tags numCol tags =
     (list_all (\<lambda>col. length col = length (hd tags)) tags \<and>
      list_all (list_all (\<lambda>v.
         CHR ''_'' \<notin> set v \<and> v \<noteq> ''time'' \<and> v \<noteq> ''total'' \<and> v \<noteq> numCol \<and>
         v @ ''1'' \<notin> set (concat tags))) tags \<and>
      CHR ''_'' \<notin> set numCol)"

subsection \<open>Checks of the level assignments, lines 273-282\<close>

text \<open>
  Line 279 reads \<^verbatim>\<open>col1 == col2 | col1 == col3 | col2 == col3\<close>. In Python \<^verbatim>\<open>|\<close> binds
  tighter than \<^verbatim>\<open>==\<close>, so this is the chained comparison
  \<^verbatim>\<open>col1 == (col2 | col1) == (col3 | col2) == col3\<close>, evaluated from the left and stopping
  at the first comparison that is false; \<^verbatim>\<open>None | int\<close> raises TypeError. Once the
  checks of lines 273-276 have passed, \<open>col1\<close> and \<open>col2\<close> are ints, so the test of line
  281 cannot succeed any more; its message stands in the branch that is never taken.
\<close>

definition level_clash :: "int \<Rightarrow> int \<Rightarrow> int option \<Rightarrow> error + bool" where
  "level_clash col1 col2 col3 =
     (if col1 \<noteq> or col2 col1 then Inr False
      else case col3 of
             None \<Rightarrow> Inl TypeError
           | Some c3 \<Rightarrow> Inr (or col2 col1 = or c3 col2 \<and> or c3 col2 = c3))"

definition orderHier_checks ::
  "int option \<Rightarrow> int option \<Rightarrow> int option \<Rightarrow> int option \<Rightarrow> error option" where
  "orderHier_checks col1 col2 col3 col4 =
     (if col1 \<notin> {Some 1, Some 2, Some 3} then
        Some (SystemExit ''col1 should equal 1, 2, 3, or 4'')
      else if col2 \<notin> {Some 1, Some 2, Some 3} then
        Some (SystemExit ''col2 should equal 1, 2, 3, or 4'')
      else if col3 \<noteq> None \<and> col3 \<notin> {Some 1, Some 2, Some 3} then
        Some (SystemExit ''col3 should equal 1, 2, 3, or 4'')
      else
        (case (col1, col2) of
           (Some c1, Some c2) \<Rightarrow>
             (case level_clash c1 c2 col3 of
                Inl e \<Rightarrow> Some e
              | Inr True \<Rightarrow>
                  Some (SystemExit ''col1, col2, and col3 should all have different values'')
              | Inr False \<Rightarrow> None)
         | _ \<Rightarrow> Some (SystemExit ''You need at least 1 column specified'')))"

subsection \<open>Column names, lines 283-365\<close>

text \<open>\<^verbatim>\<open>Series.unique()\<close>: the distinct values in the order of their first appearance.\<close>

definition unique_vals :: "'a list \<Rightarrow> 'a list" where
  "unique_vals xs = fold (\<lambda>x acc. if x \<in> set acc then acc else acc @ [x]) xs []"

text \<open>Lines 283-306: \<^verbatim>\<open>orderList\<close>; \<^verbatim>\<open>numIn\<close> is its length.\<close>

definition orderList_of ::
  "int option \<Rightarrow> int option \<Rightarrow> int option \<Rightarrow> int option \<Rightarrow> int option list" where
  "orderList_of col1 col2 col3 col4 =
     (if col2 = None then [col1]
      else if col3 = None then [col1, col2]
      else if col4 = None then [col1, col2, col3]
      else [col1, col2, col3, col4])"

text \<open>
  \<^verbatim>\<open>uniqueList[orderList.index(L)]\<close>, as the loops use it: \<^verbatim>\<open>index\<close> raises ValueError when
  no column is assigned to level \<open>L\<close>. When the column found is the value column, its
  values are numbers, and the first name built from one of them (\<^verbatim>\<open>+'1'\<close> in line 316,
  \<^verbatim>\<open>+'_'+\<close> in lines 322, 328 and 334) raises TypeError; a table without rows has no
  such value.
\<close>

definition level_values :: "string list list \<Rightarrow> int option list \<Rightarrow> int \<Rightarrow> error + string list" where
  "level_values tags orderList L =
     (if Some L \<in> set orderList then
        (let i = py_index orderList (Some L)
         in if i < length tags then Inr (unique_vals (tags ! i))
            else if tags = [] \<or> hd tags = [] then Inr []
            else Inl TypeError)
      else Inl ValueError)"

text \<open>
  The names of the node columns in the order in which lines 345-365 merge them into \<open>y\<close>:
  each level-1 value, followed by its underscore-joined combinations with the values of
  the deeper levels, depth first. The loops of lines 314-335, which build the series, do
  the same lookups in the same nesting and raise in the same cases. A loop over no
  values does not reach the lookup inside it.
\<close>

definition node_names :: "string list list \<Rightarrow> int option list \<Rightarrow> error + string list" where
  "node_names tags orderList =
     (let numIn = length orderList
      in case level_values tags orderList 1 of
           Inl e \<Rightarrow> Inl e
         | Inr u1 \<Rightarrow>
             if u1 = [] \<or> \<not> numIn > 1 then Inr u1
             else
               (case level_values tags orderList 2 of
                  Inl e \<Rightarrow> Inl e
                | Inr u2 \<Rightarrow>
                    if u2 = [] \<or> \<not> numIn > 2 then
                      Inr (concat (map (\<lambda>a. a # map (\<lambda>b. a @ ''_'' @ b) u2) u1))
                    else
                      (case level_values tags orderList 3 of
                         Inl e \<Rightarrow> Inl e
                       | Inr u3 \<Rightarrow>
                           if u3 = [] \<or> \<not> numIn > 3 then
                             Inr (concat (map (\<lambda>a. a # concat (map (\<lambda>b.
                                    (a @ ''_'' @ b) #
                                    map (\<lambda>c. a @ ''_'' @ b @ ''_'' @ c) u3) u2)) u1))
                           else
                             (case level_values tags orderList 4 of
                                Inl e \<Rightarrow> Inl e
                              | Inr u4 \<Rightarrow>
                                  Inr (concat (map (\<lambda>a. a # concat (map (\<lambda>b.
                                         (a @ ''_'' @ b) #
                                         concat (map (\<lambda>c.
                                           (a @ ''_'' @ b @ ''_'' @ c) #
                                           map (\<lambda>d. a @ ''_'' @ b @ ''_'' @ c @ ''_'' @ d) u4)
                                         u3)) u2)) u1))))))"

subsection \<open>Reordering and the descriptor, lines 375-434\<close>

text \<open>\<^verbatim>\<open>col.count('_')\<close>.\<close>

definition underscores :: "string \<Rightarrow> nat" where
  "underscores s = length (filter (\<lambda>c. c = CHR ''_'') s)"

text \<open>\<^verbatim>\<open>s.count(sub)\<close>: the number of non-overlapping occurrences of \<open>sub\<close> in \<open>s\<close>, found
  from the left; \<open>length s + 1\<close> for the empty \<open>sub\<close>.\<close>

function count_from :: "string \<Rightarrow> string \<Rightarrow> nat" where
  "count_from sub [] = 0"
| "count_from sub (c # cs) =
     (if sub \<noteq> [] \<and> take (length sub) (c # cs) = sub
      then Suc (count_from sub (drop (length sub - 1) cs))
      else count_from sub cs)"
  by pat_completeness auto
termination
  by (relation "measure (\<lambda>(sub, s). length s)") auto

definition py_count :: "string \<Rightarrow> string \<Rightarrow> nat" where
  "py_count s sub = (if sub = [] then length s + 1 else count_from sub s)"

text \<open>
  Lines 416-432, one level: for every column position in \<open>parents\<close>, the sum over the
  columns \<^verbatim>\<open>y.columns.tolist()[lo:hi]\<close> of the number of occurrences of the parent's name.
\<close>

definition count_children :: "string list \<Rightarrow> nat list \<Rightarrow> nat \<Rightarrow> nat \<Rightarrow> nat list" where
  "count_children ycols parents lo hi =
     map (\<lambda>column. sum_list (map (\<lambda>i. py_count i (ycols ! column)) (take (hi - lo) (drop lo ycols))))
       parents"

text \<open>
  \<^verbatim>\<open>y[newOrder]\<close> selects, for every label of \<open>newOrder\<close>, the columns that carry it. The
  lists \<open>list1\<close>, ..., \<open>list4\<close> hold the names with 0, 1, 2 and 3 underscores; \<open>list1\<close>
  always holds \<^verbatim>\<open>time\<close> and \<^verbatim>\<open>total\<close>, so \<open>count1 - 2\<close> is not negative. Lines 283-306 read
  the names of the columns that the level assignments refer to and raise IndexError when
  \<^verbatim>\<open>data\<close> has fewer columns. The result is the list of the column names of the table
  returned, and \<^verbatim>\<open>nodes\<close>.
\<close>

definition orderHier ::
  "string list list \<Rightarrow> int option \<Rightarrow> int option \<Rightarrow> int option \<Rightarrow> int option
     \<Rightarrow> error + string list \<times> nat list list" where
  "orderHier tags col1 col2 col3 col4 =
     (case orderHier_checks col1 col2 col3 col4 of
        Some e \<Rightarrow> Inl e
      | None \<Rightarrow>
          (let orderList = orderList_of col1 col2 col3 col4;
               numIn = length orderList
           in if length tags + 1 < numIn then Inl IndexError
              else
                (case node_names tags orderList of
                   Inl e \<Rightarrow> Inl e
                 | Inr names \<Rightarrow>
                     (let cols = ''time'' # ''total'' # names;
                          list1 = filter (\<lambda>col. underscores col = 0) cols;
                          list2 = filter (\<lambda>col. underscores col = 1) cols;
                          list3 = filter (\<lambda>col. underscores col = 2) cols;
                          list4 = filter (\<lambda>col. underscores col = 3) cols;
                          newOrder = list1 @ list2 @ list3 @ list4;
                          count1 = length list1;
                          count2 = length list2;
                          count3 = length list3;
                          count4 = length list4;
                          ycols = concat (map (\<lambda>l. filter (\<lambda>col. col = l) cols) newOrder);
                          nodes1 = [[count1 - 2]];
                          nodes2 = (if numIn > 1 then
                                      [count_children ycols [2..<count1] count1 (count1 + count2)]
                                    else []);
                          nodes3 = (if numIn > 2 then
                                      [count_children ycols [count1..<count1 + count2]
                                         (count1 + count2) (count1 + count2 + count3)]
                                    else []);
                          nodes4 = (if numIn > 3 then
                                      [count_children ycols
                                         [count1 + count2..<count1 + count2 + count3]
                                         (count1 + count2 + count3)
                                         (count1 + count2 + count3 + count4)]
                                    else [])
                      in Inr (ycols, nodes1 @ nodes2 @ nodes3 @ nodes4)))))"

section \<open>Notions for the statements about \<^verbatim>\<open>hts\<close>\<close>

text \<open>
  The calls that are misconfigured: a horizon below 1, a method outside the six names, an
  empty descriptor, a descriptor whose grand total is not the number of columns minus 2,
  or a \<^verbatim>\<open>cap\<close> or \<^verbatim>\<open>capF\<close> table whose number of columns is not that of \<open>y\<close> minus 1.
\<close>

definition cap_mismatch :: "cap \<Rightarrow> frame \<Rightarrow> bool" where
  "cap_mismatch c y = (case c of CapFrame k \<Rightarrow> int k \<noteq> int (length y) - 1 | _ \<Rightarrow> False)"

definition misconfigured ::
  "frame \<Rightarrow> int \<Rightarrow> nat list list \<Rightarrow> string \<Rightarrow> cap \<Rightarrow> cap \<Rightarrow> bool" where
  "misconfigured y h nodes method cap capF =
     (h < 1 \<or>
      method \<notin> {''OC'', ''FP'', ''PHA'', ''AHP'', ''BU'', ''cvSelect''} \<or>
      nodes = [] \<or>
      int (sum_list (map sum_list nodes)) \<noteq> int (length y) - 2 \<or>
      cap_mismatch cap y \<or> cap_mismatch capF y)"

text \<open>
  The mean absolute scaled error as the specification writes it, for the forecasts \<open>f\<close>
  and the actual values \<open>a\<close> of a test window of \<open>n\<close> points:
  \<open>(\<Sum>|f\<^sub>t - a\<^sub>t|) / ((n / (n - 1)) * \<Sum>|a\<^sub>t - a\<^bsub>t-1\<^esub>|)\<close>.
\<close>

definition mase_formula :: "real list \<Rightarrow> real list \<Rightarrow> real" where
  "mase_formula f a =
     (\<Sum>t<length a. \<bar>f ! t - a ! t\<bar>) /
     ((real (length a) / (real (length a) - 1)) * (\<Sum>t\<in>{1..<length a}. \<bar>a ! t - a ! (t - 1)\<bar>))"

text \<open>
  Modelled from the spec: the forecasting backend \<^verbatim>\<open>fitForecast\<close> is not part of the
  source at hand. The specification (sections 2 and 6) has it return a mapping from node
  index to a forecast table, one table per node of the wide table, the history followed
  by \<open>h\<close> future points. \<open>naive_backend\<close> is one such backend, used for concrete runs: it
  has the keys \<open>0, 1, ...\<close>, one per value column, and forecasts the last value seen,
  whatever the method.
\<close>

definition naive_backend :: backend where
  "naive_backend c =
     Inr (map (\<lambda>k. (k, call_y c ! (k + 1) @ replicate (nat (call_h c)) (last (call_y c ! (k + 1)))))
            [0..<length (call_y c) - 1])"

text \<open>
  Three wide tables for the descriptor \<open>[[2]]\<close>, with the columns time, total and two
  leaves: eight rows; four rows, so that every test window has one point; and eight rows
  of which the first leaf is constant over the first test window (rows 2 and 3).
\<close>

definition y8 :: frame where
  "y8 = [[0, 1, 2, 3, 4, 5, 6, 7],
         [3, 5, 9, 13, 19, 25, 33, 41],
         [1, 2, 4, 7, 11, 16, 22, 29],
         [2, 3, 5, 6, 8, 9, 11, 12]]"

definition y4 :: frame where
  "y4 = [[0, 1, 2, 3],
         [3, 5, 9, 13],
         [1, 2, 4, 7],
         [2, 3, 5, 6]]"

definition y8c :: frame where
  "y8c = [[0, 1, 2, 3, 4, 5, 6, 7],
          [3, 5, 10, 11, 19, 25, 33, 41],
          [1, 2, 5, 5, 11, 16, 22, 29],
          [2, 3, 5, 6, 8, 9, 11, 12]]"

text \<open>
  The run of \<^verbatim>\<open>hts\<close> on \<open>y8\<close> with \<open>naive_backend\<close>: the summing matrix of \<open>[[2]]\<close>, the
  folds of eight rows, and the nine MASE values that every method accumulates there
  (three folds, and in each the keys 0, 1 and 2).
\<close>

definition sumMat2 :: "nat list list" where
  "sumMat2 = [[1, 1], [1, 0], [0, 1]]"

definition folds8 :: "(nat list \<times> nat list) list" where
  "folds8 = [([0, 1], [2, 3]), ([0, 1, 2, 3], [4, 5]), ([0, 1, 2, 3, 4, 5], [6, 7])]"

definition scores8 :: "npfloat list" where
  "scores8 = [Fin (3 / 2), Fin (7 / 6), Fin (5 / 2), Fin (3 / 2), Fin (13 / 10), Fin (5 / 2),
              Fin (3 / 2), Fin (19 / 14), Fin (5 / 2)]"

text \<open>The backend call that \<^verbatim>\<open>hts\<close> makes for a fold and a method (lines 167-181).\<close>

definition fold_call ::
  "frame \<Rightarrow> nat list list \<Rightarrow> nat list list \<Rightarrow> nat list \<times> nat list \<Rightarrow> string \<Rightarrow> call" where
  "fold_call y sumMat nodes fd m =
     \<lparr>call_y = iloc_rows y (fst fd), call_h = int (length (snd fd)), call_sumMat = sumMat,
      call_nodes = nodes, call_method = m\<rparr>"

text \<open>
  \<open>vs\<close> is what method number \<open>i\<close> of \<open>methodList\<close> accumulates in the fold \<open>fd\<close>: one
  value per key of the forecasts returned for \<^verbatim>\<open>OC\<close> (the dictionary \<^verbatim>\<open>ynew1\<close> of line
  182), in the order of the keys, the value for a key being the MASE of the forecast that
  method \<open>i\<close> returned under that key, against column \<open>key + 1\<close> of \<open>y\<close> over the test
  window of the fold.
\<close>

definition scored_in_fold ::
  "backend \<Rightarrow> frame \<Rightarrow> nat list list \<Rightarrow> nat list list \<Rightarrow> nat list \<times> nat list \<Rightarrow> nat
     \<Rightarrow> npfloat list \<Rightarrow> bool" where
  "scored_in_fold fitForecast y sumMat nodes fd i vs =
     (case fitForecast (fold_call y sumMat nodes fd ''OC'') of
        Inl e \<Rightarrow> False
      | Inr ynew1 \<Rightarrow>
          (case fitForecast (fold_call y sumMat nodes fd (methodList ! i)) of
             Inl e \<Rightarrow> False
           | Inr ynew \<Rightarrow>
               length vs = length ynew1 \<and>
               list_all (\<lambda>j. mase_key ynew y (snd fd) (fst (ynew1 ! j)) = Inr (vs ! j))
                 [0..<length ynew1]))"

section \<open>Notions for the statements about \<^verbatim>\<open>orderHier\<close>\<close>

text \<open>
  The count of children as the specification describes it: for every column position in
  \<open>parents\<close>, the number of the columns \<open>lo\<close> to \<open>hi\<close>, excluded, whose name starts with the
  parent's name.
\<close>

definition count_prefixed :: "string list \<Rightarrow> nat list \<Rightarrow> nat \<Rightarrow> nat \<Rightarrow> nat list" where
  "count_prefixed ycols parents lo hi =
     map (\<lambda>column.
            length (filter (\<lambda>i. take (length (ycols ! column)) i = ycols ! column)
                      (take (hi - lo) (drop lo ycols))))
       parents"

section \<open>Proofs about the summing matrix\<close>

lemma length_sum_axis0: "\<forall>r\<in>set a. length r = n \<Longrightarrow> length (sum_axis0 n a) = n"
  by (induction a) (auto simp: sum_axis0_def)

lemma nth_sum_axis0:
  "\<forall>r\<in>set a. length r = n \<Longrightarrow> i < n \<Longrightarrow> sum_axis0 n a ! i = sum_list (map (\<lambda>r. r ! i) a)"
proof (induction a)
  case Nil
  then show ?case by (simp add: sum_axis0_def)
next
  case (Cons r a)
  have "length (sum_axis0 n a) = n" using Cons.prems by (simp add: length_sum_axis0)
  moreover have "sum_axis0 n (r # a) = map2 (+) r (sum_axis0 n a)"
    by (simp add: sum_axis0_def)
  ultimately show ?case using Cons by simp
qed

lemma length_indicator [simp]: "length (indicator n a b) = n"
  by (simp add: indicator_def)

lemma nth_indicator: "i < n \<Longrightarrow> indicator n a b ! i = (if a \<le> i \<and> i < b then 1 else 0)"
  by (simp add: indicator_def)

lemma mono_upto:
  fixes F :: "nat \<Rightarrow> nat"
  assumes "\<And>c. a \<le> c \<Longrightarrow> c < b \<Longrightarrow> F c \<le> F (Suc c)"
  shows "a \<le> x \<Longrightarrow> x \<le> b \<Longrightarrow> F a \<le> F x"
proof (induction x)
  case 0
  then show ?case by simp
next
  case (Suc x)
  show ?case
  proof (cases "a = Suc x")
    case True
    then show ?thesis by simp
  next
    case False
    then have ax: "a \<le> x" and xb: "x < b" using Suc.prems by simp_all
    have "F a \<le> F x" using Suc.IH ax xb by simp
    moreover have "F x \<le> F (Suc x)" using assms ax xb by simp
    ultimately show ?thesis by simp
  qed
qed

lemma telescope_count:
  fixes F :: "nat \<Rightarrow> nat"
  assumes "\<And>c. a \<le> c \<Longrightarrow> c < b \<Longrightarrow> F c \<le> F (Suc c)"
  shows "a \<le> b \<Longrightarrow> (\<Sum>c\<leftarrow>[a..<b]. if F c \<le> i \<and> i < F (Suc c) then 1 else 0) =
         (if F a \<le> i \<and> i < F b then 1 else (0::nat))"
  using assms
proof (induction b)
  case 0
  then show ?case by simp
next
  case (Suc b)
  show ?case
  proof (cases "a = Suc b")
    case True
    then show ?thesis by simp
  next
    case False
    then have ab: "a \<le> b" using Suc.prems by simp
    have mono: "F a \<le> F b" using ab Suc.prems(2) by (intro mono_upto[of a "Suc b" F b]) auto
    have step: "F b \<le> F (Suc b)" using Suc.prems(2) ab by simp
    have IH: "(\<Sum>c\<leftarrow>[a..<b]. if F c \<le> i \<and> i < F (Suc c) then 1 else 0) =
         (if F a \<le> i \<and> i < F b then 1 else (0::nat))"
      using Suc.IH ab Suc.prems(2) by simp
    show ?thesis using ab IH mono step by auto
  qed
qed

lemma telescope_rows:
  fixes F :: "nat \<Rightarrow> nat"
  assumes "\<And>c. a \<le> c \<Longrightarrow> c < b \<Longrightarrow> F c \<le> F (Suc c)" and "a \<le> b"
  shows "sum_axis0 n (map (\<lambda>c. indicator n (F c) (F (Suc c))) [a..<b]) = indicator n (F a) (F b)"
proof (rule nth_equalityI)
  show "length (sum_axis0 n (map (\<lambda>c. indicator n (F c) (F (Suc c))) [a..<b])) =
        length (indicator n (F a) (F b))"
    by (simp add: length_sum_axis0)
next
  fix i assume "i < length (sum_axis0 n (map (\<lambda>c. indicator n (F c) (F (Suc c))) [a..<b]))"
  then have i: "i < n" by (simp add: length_sum_axis0)
  have "sum_axis0 n (map (\<lambda>c. indicator n (F c) (F (Suc c))) [a..<b]) ! i =
        (\<Sum>c\<leftarrow>[a..<b]. if F c \<le> i \<and> i < F (Suc c) then 1 else 0)"
    using i by (simp add: nth_sum_axis0 o_def nth_indicator)
  also have "\<dots> = (if F a \<le> i \<and> i < F b then 1 else 0)"
    using telescope_count[of a b F i] assms by simp
  finally show "sum_axis0 n (map (\<lambda>c. indicator n (F c) (F (Suc c))) [a..<b]) ! i =
        indicator n (F a) (F b) ! i"
    using i by (simp add: nth_indicator)
qed

lemma vstack_not_zero: "\<not> np_all_zero B \<Longrightarrow> \<not> np_all_zero (np_vstack_row B r)"
  by (cases B) auto

lemma rows_of_vstack: "rows_of (np_vstack_row B r) = rows_of B @ [r]"
  by (cases B) auto

lemma vstack_Arr2: "np_vstack_row B r = Arr2 (rows_of B @ [r])"
  by (cases B) auto

lemma sum_groups_stack:
  "\<not> np_all_zero B \<Longrightarrow>
   sum_groups n (Arr2 m) ns c c B =
     Inr (if ns = [] then B else Arr2 (rows_of B @ group_sums n m ns c))"
proof (induction ns arbitrary: c B)
  case Nil
  then show ?case by simp
next
  case (Cons k ns)
  let ?r = "sum_axis0 n (take k (drop c m))"
  have nz: "\<not> np_all_zero (np_vstack_row B ?r)" using Cons.prems by (rule vstack_not_zero)
  have "sum_groups n (Arr2 m) (k # ns) c c B =
        sum_groups n (Arr2 m) ns (c + k) (c + k) (np_vstack_row B ?r)"
    using Cons.prems by (simp add: Let_def)
  also have "\<dots> = Inr (if ns = [] then np_vstack_row B ?r
                      else Arr2 (rows_of (np_vstack_row B ?r) @ group_sums n m ns (c + k)))"
    using Cons.IH[OF nz] .
  finally show ?case by (simp add: vstack_Arr2 rows_of_vstack)
qed

lemma sum_groups_first:
  assumes "\<not> list_all (\<lambda>x. x = 0) (sum_axis0 n (take k (drop c m)))"
  shows "sum_groups n (Arr2 m) (k # ns) c c (Arr1 (np_zeros n)) =
     Inr (if ns = [] then Arr1 (sum_axis0 n (take k (drop c m)))
          else Arr2 (group_sums n m (k # ns) c))"
proof -
  let ?r = "sum_axis0 n (take k (drop c m))"
  have z: "np_all_zero (Arr1 (np_zeros n))" by (simp add: np_zeros_def list_all_iff)
  have "sum_groups n (Arr2 m) (k # ns) c c (Arr1 (np_zeros n)) =
        sum_groups n (Arr2 m) ns (c + k) (c + k) (Arr1 ?r)"
    using z by (simp add: Let_def)
  also have "\<dots> = Inr (if ns = [] then Arr1 ?r else Arr2 (rows_of (Arr1 ?r) @ group_sums n m ns (c + k)))"
    using assms by (intro sum_groups_stack) simp
  finally show ?thesis by simp
qed

lemma slice_map_upt:
  "c + k \<le> sz \<Longrightarrow> take k (drop c (map f [0..<sz])) = map f [c..<c + k]"
  by (simp add: drop_map take_map take_upt)

lemma group_sums_indicator:
  fixes F :: "nat \<Rightarrow> nat"
  assumes mono: "\<And>x. x < sz \<Longrightarrow> F x \<le> F (Suc x)"
  shows "c + sum_list ns \<le> sz \<Longrightarrow>
    group_sums n (map (\<lambda>x. indicator n (F x) (F (Suc x))) [0..<sz]) ns c =
    map (\<lambda>k. indicator n (F (c + sum_list (take k ns))) (F (c + sum_list (take (Suc k) ns))))
        [0..<length ns]"
proof (induction ns arbitrary: c)
  case Nil
  then show ?case by simp
next
  case (Cons k ns)
  have le: "c + k \<le> sz" using Cons.prems by simp
  have first: "sum_axis0 n (take k (drop c (map (\<lambda>x. indicator n (F x) (F (Suc x))) [0..<sz]))) =
               indicator n (F c) (F (c + k))"
    unfolding slice_map_upt[OF le]
    by (rule telescope_rows) (use le mono in auto)
  have rest: "group_sums n (map (\<lambda>x. indicator n (F x) (F (Suc x))) [0..<sz]) ns (c + k) =
    map (\<lambda>j. indicator n (F (c + k + sum_list (take j ns))) (F (c + k + sum_list (take (Suc j) ns))))
        [0..<length ns]"
    using Cons.IH[of "c + k"] Cons.prems by simp
  have shift: "map (\<lambda>j. indicator n (F (c + sum_list (take j (k # ns))))
                              (F (c + sum_list (take (Suc j) (k # ns))))) [0..<length (k # ns)] =
        indicator n (F c) (F (c + k)) #
        map (\<lambda>j. indicator n (F (c + k + sum_list (take j ns))) (F (c + k + sum_list (take (Suc j) ns))))
        [0..<length ns]"
    by (simp add: upt_conv_Cons map_Suc_upt[symmetric] add.assoc del: upt_Suc)
  show ?case using first rest shift by simp
qed

lemma leaf_pos_0 [simp]: "leaf_pos below 0 = 0"
  by (induction below) auto

lemma sum_take_mono: "x \<le> y \<Longrightarrow> sum_list (take x ns) \<le> sum_list (take y (ns::nat list))"
proof (induction ns arbitrary: x y)
  case Nil then show ?case by simp
next
  case (Cons a ns)
  then show ?case by (cases x; cases y) auto
qed

lemma sum_take_le: "sum_list (take x ns) \<le> sum_list (ns::nat list)"
  using sum_take_mono[of x "length ns" ns] by (cases "x \<le> length ns") auto

lemma sum_take_strict:
  "list_all (\<lambda>c. 0 < c) ns \<Longrightarrow> x < y \<Longrightarrow> y \<le> length ns \<Longrightarrow>
   sum_list (take x ns) < sum_list (take y (ns::nat list))"
proof (induction ns arbitrary: x y)
  case Nil then show ?case by simp
next
  case (Cons a ns)
  then show ?case by (cases x; cases y) (auto simp: trans_less_add2)
qed

lemma leaf_pos_mono: "x \<le> y \<Longrightarrow> leaf_pos below x \<le> leaf_pos below y"
proof (induction below arbitrary: x y)
  case Nil then show ?case by simp
next
  case (Cons ns below)
  have "sum_list (take x ns) \<le> sum_list (take y ns)" using Cons.prems by (rule sum_take_mono)
  then show ?case using Cons.IH by simp
qed

lemma consistent_tl: "consistent (ns # below) \<Longrightarrow> consistent below"
  by (cases below) auto

lemma consistent_drop: "consistent nodes \<Longrightarrow> consistent (drop j nodes)"
proof (induction j arbitrary: nodes)
  case 0 then show ?case by simp
next
  case (Suc j)
  show ?case
  proof (cases nodes)
    case Nil then show ?thesis by simp
  next
    case (Cons ns below)
    then have "consistent below" using Suc.prems consistent_tl by blast
    then show ?thesis using Suc.IH Cons by simp
  qed
qed

lemma consistent_nth:
  "consistent nodes \<Longrightarrow> Suc j < length nodes \<Longrightarrow> length (nodes ! Suc j) = sum_list (nodes ! j)"
proof (induction nodes arbitrary: j rule: consistent.induct)
  case (1 ns ns' rest)
  then show ?case by (cases j) auto
qed auto

lemma leaf_pos_top:
  "consistent below \<Longrightarrow> (below \<noteq> [] \<Longrightarrow> sum_list (last below) = n) \<Longrightarrow>
   leaf_pos below (width below n) = n"
proof (induction below)
  case Nil then show ?case by (simp add: width_def)
next
  case (Cons ns below)
  show ?case
  proof (cases below)
    case Nil
    then show ?thesis using Cons.prems by (simp add: width_def)
  next
    case (Cons ns' rest)
    then have "leaf_pos below (width below n) = n"
      using Cons.IH Cons.prems by (auto dest: consistent_tl)
    then show ?thesis using Cons Cons.prems by (simp add: width_def)
  qed
qed

lemma width_tl:
  "consistent (ns # below) \<Longrightarrow> sum_list (last (ns # below)) = n \<Longrightarrow> width below n = sum_list ns"
  by (cases below) (auto simp: width_def)

lemma leaf_pos_strict:
  "consistent below \<Longrightarrow> list_all (list_all (\<lambda>c. 0 < c)) below \<Longrightarrow>
   (below \<noteq> [] \<Longrightarrow> sum_list (last below) = n) \<Longrightarrow>
   x < y \<Longrightarrow> y \<le> width below n \<Longrightarrow> leaf_pos below x < leaf_pos below y"
proof (induction below arbitrary: x y)
  case Nil then show ?case by simp
next
  case (Cons ns below)
  have w: "width below n = sum_list ns" using Cons.prems by (intro width_tl) auto
  have y: "y \<le> length ns" using Cons.prems by (simp add: width_def)
  have lt: "sum_list (take x ns) < sum_list (take y ns)"
    using Cons.prems y by (intro sum_take_strict) auto
  have le: "sum_list (take y ns) \<le> width below n" using w by (simp add: sum_take_le)
  have "leaf_pos below (sum_list (take x ns)) < leaf_pos below (sum_list (take y ns))"
  proof (rule Cons.IH[OF _ _ _ lt le])
    show "consistent below" using Cons.prems by (auto dest: consistent_tl)
    show "list_all (list_all (\<lambda>c. 0 < c)) below" using Cons.prems by simp
    show "below \<noteq> [] \<Longrightarrow> sum_list (last below) = n" using Cons.prems by auto
  qed
  then show ?case by simp
qed

lemma leaf_pos_le:
  "consistent below \<Longrightarrow> (below \<noteq> [] \<Longrightarrow> sum_list (last below) = n) \<Longrightarrow>
   x \<le> width below n \<Longrightarrow> leaf_pos below x \<le> n"
  using leaf_pos_mono[of x "width below n" below] leaf_pos_top[of below n] by simp

lemma indicator_not_zero: "a < b \<Longrightarrow> b \<le> n \<Longrightarrow> \<not> list_all (\<lambda>x. x = 0) (indicator n a b)"
proof
  assume ab: "a < b" and bn: "b \<le> n" and z: "list_all (\<lambda>x. x = 0) (indicator n a b)"
  have an: "a < n" using ab bn by simp
  then have "indicator n a b ! a = 0" using z by (simp add: list_all_length)
  moreover have "indicator n a b ! a = 1" using an ab by (simp add: nth_indicator)
  ultimately show False by simp
qed

lemma slip_freeD:
  assumes "slip_free nodes"
  shows "nodes \<noteq> []" "length (hd nodes) = 1" "consistent nodes"
    "list_all (list_all (\<lambda>c. 0 < c)) nodes" "list_all (\<lambda>ns. 2 \<le> length ns) (drop 2 nodes)"
  using assms by (auto simp: slip_free_def topology_def)

lemma drop_chain:
  assumes "slip_free nodes"
  shows "consistent (drop j nodes)" "list_all (list_all (\<lambda>c. 0 < c)) (drop j nodes)"
    "drop j nodes \<noteq> [] \<Longrightarrow> sum_list (last (drop j nodes)) = leaf_count nodes"
proof -
  show "consistent (drop j nodes)" using slip_freeD(3)[OF assms] by (rule consistent_drop)
  show "list_all (list_all (\<lambda>c. 0 < c)) (drop j nodes)"
    using slip_freeD(4)[OF assms] by (auto simp: list_all_iff dest: in_set_dropD)
  show "drop j nodes \<noteq> [] \<Longrightarrow> sum_list (last (drop j nodes)) = leaf_count nodes"
    by (simp add: leaf_count_def)
qed

lemma level_nonempty:
  assumes "slip_free nodes"
  shows "j < length nodes \<Longrightarrow> nodes ! j \<noteq> []"
proof (induction j)
  case 0
  then show ?case using slip_freeD(1,2)[OF assms] by (cases nodes) auto
next
  case (Suc j)
  then have ne: "nodes ! j \<noteq> []" by simp
  have "list_all (\<lambda>c. 0 < c) (nodes ! j)"
    using slip_freeD(4)[OF assms] Suc.prems by (simp add: list_all_length)
  then have "0 < sum_list (nodes ! j)" using ne by (cases "nodes ! j") auto
  moreover have "length (nodes ! Suc j) = sum_list (nodes ! j)"
    using slip_freeD(3)[OF assms] Suc.prems by (rule consistent_nth)
  ultimately have "0 < length (nodes ! Suc j)" by simp
  then show ?case by auto
qed

lemma level_size_width:
  assumes "slip_free nodes" and "j \<le> length nodes"
  shows "level_size nodes j = width (drop j nodes) (leaf_count nodes)"
proof (cases "j = 0")
  case True
  then show ?thesis using slip_freeD(1,2)[OF assms(1)]
    by (cases nodes) (auto simp: level_size_def width_def)
next
  case False
  then obtain i where j: "j = Suc i" by (cases j) auto
  show ?thesis
  proof (cases "j = length nodes")
    case True
    then have "i = length nodes - 1" using j by simp
    then have "nodes ! i = last nodes" using slip_freeD(1)[OF assms(1)]
      by (simp add: last_conv_nth)
    moreover have "level_size nodes j = sum_list (nodes ! i)" using j by (simp add: level_size_def)
    moreover have "width (drop j nodes) (leaf_count nodes) = leaf_count nodes"
      using True by (simp add: width_def)
    ultimately show ?thesis by (simp add: leaf_count_def)
  next
    case False
    then have lt: "Suc i < length nodes" using assms(2) j by simp
    have "drop j nodes = nodes ! j # drop (Suc j) nodes"
      using lt j by (simp add: Cons_nth_drop_Suc)
    moreover have "length (nodes ! Suc i) = sum_list (nodes ! i)"
      using slip_freeD(3)[OF assms(1)] lt by (rule consistent_nth)
    ultimately show ?thesis using j by (simp add: level_size_def width_def)
  qed
qed

lemma level_rows_leaves: "level_rows nodes (length nodes) = np_identity (leaf_count nodes)"
  if "slip_free nodes"
proof -
  have "level_size nodes (length nodes) = leaf_count nodes"
    using level_size_width[OF that, of "length nodes"] by (simp add: width_def)
  moreover have "indicator n x (Suc x) = map (\<lambda>j. if x = j then 1 else 0) [0..<n]" for n x
    by (auto simp: indicator_def)
  ultimately show ?thesis
    by (simp add: level_rows_def node_row_def np_identity_def)
qed

lemma level_rows_root: "level_rows nodes 0 = [np_ones (leaf_count nodes)]"
  if "slip_free nodes"
proof -
  have "leaf_pos nodes (width (drop 0 nodes) (leaf_count nodes)) = leaf_count nodes"
    using drop_chain[OF that, of 0] leaf_pos_top[of nodes "leaf_count nodes"] by simp
  moreover have "width (drop 0 nodes) (leaf_count nodes) = 1"
    using level_size_width[OF that, of 0] by (simp add: level_size_def)
  ultimately have "leaf_pos nodes (Suc 0) = leaf_count nodes" by simp
  moreover have "indicator n 0 n = replicate n 1" for n
    by (auto simp: indicator_def map_replicate_trivial[symmetric] simp del: map_replicate_trivial)
  ultimately show ?thesis
    by (simp add: level_rows_def node_row_def level_size_def np_ones_def)
qed

lemma level_rows_alt:
  "level_rows nodes j =
     map (\<lambda>x. indicator (leaf_count nodes) (leaf_pos (drop j nodes) x) (leaf_pos (drop j nodes) (Suc x)))
       [0..<level_size nodes j]"
  by (simp add: level_rows_def node_row_def)

lemma level_step:
  assumes wf: "slip_free nodes" and j: "Suc j < length nodes"
  shows "sum_groups (leaf_count nodes) (Arr2 (level_rows nodes (Suc (Suc j)))) (nodes ! Suc j) 0 0
           (Arr1 (np_zeros (leaf_count nodes))) = Inr (level_array nodes (Suc j))"
    and "rows_of (level_array nodes (Suc j)) = level_rows nodes (Suc j)"
proof -
  let ?n = "leaf_count nodes"
  let ?ns = "nodes ! Suc j"
  let ?below = "drop (Suc (Suc j)) nodes"
  let ?F = "leaf_pos ?below"
  let ?sz = "level_size nodes (Suc (Suc j))"
  let ?m = "level_rows nodes (Suc (Suc j))"
  have sz: "?sz = sum_list ?ns" by (simp add: level_size_def)
  have szw: "?sz = width ?below ?n" using level_size_width[OF wf, of "Suc (Suc j)"] j by simp
  have len: "level_size nodes (Suc j) = length ?ns"
    using level_size_width[OF wf, of "Suc j"] j by (simp add: width_def Cons_nth_drop_Suc[symmetric])
  have dr: "drop (Suc j) nodes = ?ns # ?below" using j by (simp add: Cons_nth_drop_Suc)
  have ne: "?ns \<noteq> []" using level_nonempty[OF wf j] .
  then obtain k ks where ns: "?ns = k # ks" by (cases ?ns) auto
  have pos: "list_all (\<lambda>c. 0 < c) ?ns"
    using slip_freeD(4)[OF wf] j by (simp add: list_all_length)
  have k: "0 < k" "k \<le> sum_list ?ns" using pos ns by auto
  have m: "?m = map (\<lambda>x. indicator ?n (?F x) (?F (Suc x))) [0..<?sz]" by (rule level_rows_alt)
  have gs: "group_sums ?n ?m ?ns 0 =
      map (\<lambda>k. indicator ?n (?F (0 + sum_list (take k ?ns))) (?F (0 + sum_list (take (Suc k) ?ns))))
        [0..<length ?ns]"
    unfolding m by (rule group_sums_indicator) (auto simp: leaf_pos_mono sz)
  have rows: "group_sums ?n ?m ?ns 0 = level_rows nodes (Suc j)"
    unfolding gs level_rows_alt[of nodes "Suc j"] dr len by simp
  have first: "sum_axis0 ?n (take k (drop 0 ?m)) = indicator ?n 0 (?F k)"
    using gs ns by (simp add: upt_conv_Cons del: upt_Suc)
  have "?F 0 < ?F k"
    using drop_chain[OF wf, of "Suc (Suc j)"] k szw sz by (intro leaf_pos_strict) auto
  moreover have "?F k \<le> ?n"
    using drop_chain[OF wf, of "Suc (Suc j)"] k szw sz by (intro leaf_pos_le) auto
  ultimately have nz: "\<not> list_all (\<lambda>x. x = 0) (sum_axis0 ?n (take k (drop 0 ?m)))"
    unfolding first by (intro indicator_not_zero) auto
  have res: "sum_groups ?n (Arr2 ?m) (k # ks) 0 0 (Arr1 (np_zeros ?n)) =
     Inr (if ks = [] then Arr1 (sum_axis0 ?n (take k (drop 0 ?m)))
          else Arr2 (group_sums ?n ?m (k # ks) 0))"
    using nz by (rule sum_groups_first)
  have hd_rows: "hd (level_rows nodes (Suc j)) = sum_axis0 ?n (take k (drop 0 ?m))"
    using rows[symmetric] ns by simp
  have arr: "level_array nodes (Suc j) =
     (if ks = [] then Arr1 (sum_axis0 ?n (take k (drop 0 ?m)))
          else Arr2 (group_sums ?n ?m (k # ks) 0))"
    using j ns rows hd_rows by (auto simp: level_array_def)
  show "sum_groups ?n (Arr2 ?m) ?ns 0 0 (Arr1 (np_zeros ?n)) = Inr (level_array nodes (Suc j))"
    using res arr ns by simp
  have "length (level_rows nodes (Suc j)) = length ?ns" using len by (simp add: level_rows_def)
  then show "rows_of (level_array nodes (Suc j)) = level_rows nodes (Suc j)"
    by (cases "level_rows nodes (Suc j)") (auto simp: level_array_def)
qed

lemma level_array_Arr2:
  assumes wf: "slip_free nodes" and j: "Suc j \<le> length nodes"
  shows "level_array nodes (Suc (Suc j)) = Arr2 (level_rows nodes (Suc (Suc j)))"
proof (cases "Suc (Suc j) < length nodes")
  case True
  then have "nodes ! Suc (Suc j) \<in> set (drop 2 nodes)"
    by (auto simp: in_set_conv_nth intro!: exI[of _ j])
  then have "2 \<le> length (nodes ! Suc (Suc j))"
    using slip_freeD(5)[OF wf] by (simp add: list_all_iff)
  then show ?thesis by (simp add: level_array_def)
next
  case False
  then show ?thesis by (simp add: level_array_def)
qed

lemma levels_loop_from:
  assumes wf: "slip_free nodes"
  shows "Suc d \<le> length nodes \<Longrightarrow>
    levels_loop (leaf_count nodes) nodes [length nodes - Suc d..<length nodes - 1]
      (loop_state nodes (Suc d)) = Inr (loop_state nodes 1)"
proof (induction d)
  case 0
  then show ?case by simp
next
  case (Suc d)
  let ?L = "length nodes"
  have lt: "?L - Suc (Suc d) < ?L - 1" using Suc.prems by simp
  have nxt: "Suc (?L - Suc (Suc d)) = ?L - Suc d" using Suc.prems by simp
  have idx: "?L - Suc (?L - Suc (Suc d)) = Suc d" using Suc.prems by simp
  have j: "Suc d < ?L" using Suc.prems by simp
  have upt: "[?L - Suc (Suc d)..<?L - 1] = (?L - Suc (Suc d)) # [?L - Suc d..<?L - 1]"
    using lt nxt by (simp add: upt_conv_Cons del: upt_Suc)
  have arr2: "level_array nodes (Suc (Suc d)) = Arr2 (level_rows nodes (Suc (Suc d)))"
    using wf j by (intro level_array_Arr2) auto
  have st: "rows_of (level_array nodes (Suc d)) @
            concat (map (level_rows nodes) [Suc (Suc d)..<Suc ?L]) =
            concat (map (level_rows nodes) [Suc d..<Suc ?L])"
    using level_step(2)[OF wf j] j by (simp add: upt_conv_Cons del: upt_Suc)
  have "levels_loop (leaf_count nodes) nodes [?L - Suc (Suc d)..<?L - 1]
          (loop_state nodes (Suc (Suc d))) =
        levels_loop (leaf_count nodes) nodes [?L - Suc d..<?L - 1] (loop_state nodes (Suc d))"
    unfolding upt
    by (simp add: loop_state_def[of nodes "Suc (Suc d)"] arr2 idx level_step(1)[OF wf j]
        loop_state_def[of nodes "Suc d"] st del: upt_Suc)
  then show ?case using Suc.IH j by simp
qed

lemma SummingMat_spec:
  assumes wf: "slip_free nodes"
  shows "SummingMat nodes = Inr (summing_spec nodes)"
proof -
  let ?L = "length nodes"
  let ?n = "leaf_count nodes"
  have ne: "nodes \<noteq> []" using slip_freeD(1)[OF wf] .
  then obtain d where d: "?L = Suc d" by (cases nodes) auto
  have n: "last (map sum_list nodes) = ?n" using ne by (simp add: leaf_count_def last_map)
  have init: "(Arr2 (np_identity ?n), np_identity ?n) = loop_state nodes ?L"
    by (simp add: loop_state_def level_array_def level_rows_leaves[OF wf])
  have "levels_loop ?n nodes [0..<?L - 1] (loop_state nodes ?L) = Inr (loop_state nodes 1)"
    using levels_loop_from[OF wf, of d] d by simp
  then have loop: "levels_loop ?n nodes [0..<?L - 1] (Arr2 (np_identity ?n), np_identity ?n) =
      Inr (level_array nodes 1, concat (map (level_rows nodes) [1..<Suc ?L]))"
    unfolding init by (simp add: loop_state_def)
  have "summing_spec nodes = np_ones ?n # concat (map (level_rows nodes) [1..<Suc ?L])"
    by (simp add: summing_spec_def upt_conv_Cons level_rows_root[OF wf] del: upt_Suc)
  then show ?thesis using ne loop n by (simp add: SummingMat_def Let_def)
qed

lemma sum_upt_mono:
  fixes g :: "nat \<Rightarrow> nat"
  shows "a \<le> b \<Longrightarrow> sum_list (map g [0..<a]) \<le> sum_list (map g [0..<b])"
proof (induction b)
  case 0 then show ?case by simp
next
  case (Suc b)
  then show ?case by (cases "a = Suc b") auto
qed

lemma nth_concat_upt:
  "j < m \<Longrightarrow> k < length (f j) \<Longrightarrow>
   concat (map f [0..<m]) ! (sum_list (map (\<lambda>i. length (f i)) [0..<j]) + k) = f j ! k"
proof (induction m)
  case 0 then show ?case by simp
next
  case (Suc m)
  have len: "length (concat (map f [0..<m])) = sum_list (map (\<lambda>i. length (f i)) [0..<m])"
    by (simp add: length_concat o_def)
  show ?case
  proof (cases "j = m")
    case True
    then show ?thesis using len by (simp add: nth_append)
  next
    case False
    then have jm: "j < m" using Suc.prems by simp
    have "sum_list (map (\<lambda>i. length (f i)) [0..<Suc j]) \<le> sum_list (map (\<lambda>i. length (f i)) [0..<m])"
      using jm by (intro sum_upt_mono) simp
    then have "sum_list (map (\<lambda>i. length (f i)) [0..<j]) + k < length (concat (map f [0..<m]))"
      using Suc.prems(2) len by simp
    then show ?thesis using Suc.IH[OF jm Suc.prems(2)] by (simp add: nth_append)
  qed
qed

lemma length_level_rows [simp]: "length (level_rows nodes j) = level_size nodes j"
  by (simp add: level_rows_def)

lemma nth_summing_spec:
  assumes "j \<le> length nodes" and "k < level_size nodes j"
  shows "summing_spec nodes ! row_index nodes j k = node_row nodes j k"
proof -
  have "concat (map (level_rows nodes) [0..<length nodes + 1]) !
          (sum_list (map (\<lambda>i. length (level_rows nodes i)) [0..<j]) + k) = level_rows nodes j ! k"
    using assms by (intro nth_concat_upt) auto
  then show ?thesis using assms by (simp add: summing_spec_def row_index_def level_rows_def)
qed

lemma length_summing_spec: "length (summing_spec nodes) = node_count nodes"
proof -
  have "sum_list (map (level_size nodes) [0..<Suc n]) =
        1 + sum_list (map (\<lambda>j. sum_list (nodes ! j)) [0..<n])" for n
    by (induction n) (auto simp: level_size_def)
  moreover have "map (\<lambda>j. sum_list (nodes ! j)) [0..<length nodes] = map sum_list nodes"
    by (rule nth_equalityI) auto
  ultimately show ?thesis
    by (simp add: summing_spec_def length_concat o_def node_count_def del: upt_Suc)
qed

lemma row_length_summing_spec: "r \<in> set (summing_spec nodes) \<Longrightarrow> length r = leaf_count nodes"
  by (auto simp: summing_spec_def level_rows_def node_row_def)

lemma leaves_summing_spec:
  assumes "slip_free nodes"
  shows "drop (length (summing_spec nodes) - leaf_count nodes) (summing_spec nodes) =
         np_identity (leaf_count nodes)"
proof -
  have split: "summing_spec nodes =
      concat (map (level_rows nodes) [0..<length nodes]) @ np_identity (leaf_count nodes)"
    by (simp add: summing_spec_def level_rows_leaves[OF assms])
  have "length (np_identity (leaf_count nodes)) = leaf_count nodes" by (simp add: np_identity_def)
  then show ?thesis unfolding split by simp
qed

lemma hd_summing_spec:
  assumes "slip_free nodes"
  shows "hd (summing_spec nodes) = np_ones (leaf_count nodes)"
  by (simp add: summing_spec_def upt_conv_Cons level_rows_root[OF assms] del: upt_Suc)

subsection \<open>Concrete summing matrices\<close>

text \<open>
  C2. \<^verbatim>\<open>SummingMat([[2]])\<close> is \<open>[[1,1],[1,0],[0,1]]\<close>, and \<^verbatim>\<open>SummingMat([[2],[1,2]])\<close> is
  the 6 by 3 matrix with root row \<open>[1,1,1]\<close>, level-1 rows \<open>[1,0,0]\<close> and \<open>[0,1,1]\<close>, and
  the 3 by 3 identity as the three leaf rows.
\<close>

theorem SummingMat_scenarios:
  "SummingMat [[2]] = Inr [[1,1],[1,0],[0,1]] \<and>
   SummingMat [[2],[1,2]] =
     Inr [[1,1,1], [1,0,0], [0,1,1], [1,0,0], [0,1,0], [0,0,1]]"
  by code_simp

subsection \<open>Where \<^verbatim>\<open>SummingMat\<close> is right\<close>

text \<open>
  On the topology descriptors on which its slips do not fire, \<^verbatim>\<open>SummingMat\<close> returns the
  matrix that the specification describes: one row per node (1 + the sum of all counts),
  one column per leaf, a first row of ones, the identity as its last rows, the rows in
  the order root, level 1, level 2, ..., leaves, the row at the position of node \<open>k\<close> of
  level \<open>j\<close> being the indicator vector of the leaves under that node; and the row of
  every node that is not a leaf is the element-wise sum of the rows of its children.
\<close>

lemma SummingMat_slip_free:
  assumes "slip_free nodes"
  shows "\<exists>M. SummingMat nodes = Inr M \<and>
           length M = node_count nodes \<and>
           (\<forall>r \<in> set M. length r = leaf_count nodes) \<and>
           hd M = replicate (leaf_count nodes) 1 \<and>
           drop (length M - leaf_count nodes) M = np_identity (leaf_count nodes) \<and>
           (\<forall>j \<le> length nodes. \<forall>k < level_size nodes j.
              M ! row_index nodes j k = node_row nodes j k)"
proof (intro exI conjI)
  show "SummingMat nodes = Inr (summing_spec nodes)" using assms by (rule SummingMat_spec)
  show "length (summing_spec nodes) = node_count nodes" by (rule length_summing_spec)
  show "\<forall>r \<in> set (summing_spec nodes). length r = leaf_count nodes"
    by (simp add: row_length_summing_spec)
  show "hd (summing_spec nodes) = replicate (leaf_count nodes) 1"
    using hd_summing_spec[OF assms] by (simp add: np_ones_def)
  show "drop (length (summing_spec nodes) - leaf_count nodes) (summing_spec nodes) =
        np_identity (leaf_count nodes)" using assms by (rule leaves_summing_spec)
  show "\<forall>j \<le> length nodes. \<forall>k < level_size nodes j.
          summing_spec nodes ! row_index nodes j k = node_row nodes j k"
    by (simp add: nth_summing_spec)
qed

lemma parent_row_slip_free:
  assumes wf: "slip_free nodes" and j: "j < length nodes" and k: "k < level_size nodes j"
  shows "\<exists>M. SummingMat nodes = Inr M \<and>
           M ! row_index nodes j k =
             sum_axis0 (leaf_count nodes)
               (map (\<lambda>c. M ! row_index nodes (Suc j) c) (children nodes j k))"
proof (intro exI conjI)
  let ?n = "leaf_count nodes"
  let ?ns = "nodes ! j"
  let ?F = "leaf_pos (drop (Suc j) nodes)"
  let ?a = "sum_list (take k ?ns)"
  let ?b = "sum_list (take (Suc k) ?ns)"
  show "SummingMat nodes = Inr (summing_spec nodes)" using wf by (rule SummingMat_spec)
  have dr: "drop j nodes = ?ns # drop (Suc j) nodes" using j by (simp add: Cons_nth_drop_Suc)
  have parent: "summing_spec nodes ! row_index nodes j k = indicator ?n (?F ?a) (?F ?b)"
    using j k by (simp add: nth_summing_spec node_row_def dr)
  have child: "summing_spec nodes ! row_index nodes (Suc j) c = indicator ?n (?F c) (?F (Suc c))"
    if "c \<in> set [?a..<?b]" for c
  proof -
    have "c < sum_list ?ns" using that sum_take_le[of "Suc k" ?ns] by simp
    then have "c < level_size nodes (Suc j)" by (simp add: level_size_def)
    then show ?thesis using j by (simp add: nth_summing_spec node_row_def)
  qed
  have "sum_axis0 ?n (map (\<lambda>c. summing_spec nodes ! row_index nodes (Suc j) c) [?a..<?b]) =
        sum_axis0 ?n (map (\<lambda>c. indicator ?n (?F c) (?F (Suc c))) [?a..<?b])"
  proof -
    have "map (\<lambda>c. summing_spec nodes ! row_index nodes (Suc j) c) [?a..<?b] =
          map (\<lambda>c. indicator ?n (?F c) (?F (Suc c))) [?a..<?b]"
      by (rule map_cong[OF refl]) (rule child)
    then show ?thesis by (simp only:)
  qed
  also have "\<dots> = indicator ?n (?F ?a) (?F ?b)"
    by (rule telescope_rows) (auto simp: leaf_pos_mono sum_take_mono)
  finally show "summing_spec nodes ! row_index nodes j k =
      sum_axis0 ?n (map (\<lambda>c. summing_spec nodes ! row_index nodes (Suc j) c) (children nodes j k))"
    using parent by (simp add: children_def)
qed

subsection \<open>Where it is not: C1 and C3\<close>

text \<open>
  C1 fails on the code. \<open>[[1],[1],[3]]\<close> is the topology descriptor of a chain: the root
  has one child, that child has one child, and that one has three leaves; all counts are
  positive. The matrix of the claim has six rows and three columns. \<^verbatim>\<open>SummingMat\<close>
  returns no matrix: the first round of the loop sums the identity into one row, which
  \<^verbatim>\<open>a.sum(axis = 0)\<close> returns as a 1-D array and line 121 stores in \<open>blMat\<close>; in the
  second round \<^verbatim>\<open>blMat[count:num2sumInd, :]\<close> (line 114) raises IndexError. On the
  descriptor \<open>[[2],[0,2]]\<close>, whose first level-1 node has no child, the first sum is
  the zero vector, which line 116 takes for the initial \<open>B\<close> and replaces: the matrix
  returned has four rows for five nodes.
\<close>

theorem SummingMat_fails_on_chain:
  "topology [[1],[1],[3]] \<and>
   list_all (list_all (\<lambda>c. 0 < c)) [[1],[1],[3::nat]] \<and>
   node_count [[1],[1],[3]] = 6 \<and>
   leaf_count [[1],[1],[3]] = 3 \<and>
   summing_spec [[1],[1],[3]] =
     [[1,1,1], [1,1,1], [1,1,1], [1,0,0], [0,1,0], [0,0,1]] \<and>
   sum_groups 3 (Arr2 (np_identity 3)) [3] 0 0 (Arr1 (np_zeros 3)) = Inr (Arr1 [1,1,1]) \<and>
   sum_groups 3 (Arr1 [1,1,1]) [1] 0 0 (Arr1 (np_zeros 3)) = Inl IndexError \<and>
   SummingMat [[1],[1],[3]] = Inl IndexError \<and>
   topology [[2],[0,2]] \<and>
   node_count [[2],[0,2]] = 5 \<and>
   SummingMat [[2],[0,2]] = Inr [[1,1], [1,1], [1,0], [0,1]]"
  by code_simp

text \<open>
  C3 fails on the code, by the same two defects. On the chain \<open>[[1],[1],[3]]\<close> the node
  of level 1 has the node of level 2 as its only child, and that one has the three
  leaves; \<^verbatim>\<open>SummingMat\<close> raises IndexError, so there is no row to compare. On
  \<open>[[2],[0,2]]\<close> the root has the two nodes of level 1 as children, at the row positions
  1 and 2, and the first of them has no child. In the matrix returned the rows at these
  positions sum to \<open>[2,1]\<close>, the root row is \<open>[1,1]\<close>, and the row at position 1 is
  \<open>[1,1]\<close> where the sum of no rows is \<open>[0,0]\<close>.
\<close>

theorem parent_rows_fail:
  "topology [[1],[1],[3]] \<and>
   children [[1],[1],[3]] 0 0 = [0] \<and>
   children [[1],[1],[3]] 1 0 = [0] \<and>
   children [[1],[1],[3]] 2 0 = [0, 1, 2] \<and>
   SummingMat [[1],[1],[3]] = Inl IndexError \<and>
   topology [[2],[0,2]] \<and>
   SummingMat [[2],[0,2]] = Inr [[1,1], [1,1], [1,0], [0,1]] \<and>
   children [[2],[0,2]] 0 0 = [0, 1] \<and>
   row_index [[2],[0,2]] 0 0 = 0 \<and>
   row_index [[2],[0,2]] 1 0 = 1 \<and>
   row_index [[2],[0,2]] 1 1 = 2 \<and>
   [[1,1], [1,1], [1,0], [0,1::nat]] ! 0 = [1,1] \<and>
   sum_axis0 (leaf_count [[2],[0,2]])
     [[[1,1], [1,1], [1,0], [0,1]] ! 1, [[1,1], [1,1], [1,0], [0,1]] ! 2] = [2,1] \<and>
   children [[2],[0,2]] 1 0 = [] \<and>
   [[1,1], [1,1], [1,0], [0,1::nat]] ! 1 = [1,1] \<and>
   sum_axis0 (leaf_count [[2],[0,2]]) [] = [0,0]"
  by code_simp

section \<open>Proofs about the orchestrator\<close>

subsection \<open>Misconfigured calls\<close>

lemma hts_checks_misconfigured:
  assumes "misconfigured y h nodes method cap capF"
  shows "\<exists>msg. hts_checks y h nodes method cap capF = Some (SystemExit msg)"
  using assms
  by (auto simp: misconfigured_def hts_checks_def cap_mismatch_def split: cap.splits)

text \<open>
  C7. For every misconfigured call, \<^verbatim>\<open>hts\<close> ends with the exception of \<^verbatim>\<open>sys.exit\<close>
  whatever the backend is, with no backend call made, nothing printed and no value
  returned.
\<close>

theorem hts_misconfigured_exits:
  assumes "misconfigured y h nodes method cap capF"
  shows "\<exists>msg. hts fitForecast y h nodes method cap capF = ([], [], Inl (SystemExit msg))"
proof -
  obtain msg where "hts_checks y h nodes method cap capF = Some (SystemExit msg)"
    using hts_checks_misconfigured[OF assms] by blast
  then show ?thesis by (simp add: hts_def)
qed

text \<open>The theorem at one call for each kind of misconfiguration.\<close>

theorem hts_misconfigured_exits_witness:
  "misconfigured y8 0 [[2]] ''OC'' CapNone CapNone \<and>
   misconfigured y8 1 [[2]] ''ARIMA'' CapNone CapNone \<and>
   misconfigured y8 1 [] ''OC'' CapNone CapNone \<and>
   misconfigured y8 1 [[3]] ''OC'' CapNone CapNone \<and>
   misconfigured y8 1 [[2]] ''OC'' (CapFrame 2) CapNone \<and>
   (\<exists>msg. hts naive_backend y8 0 [[2]] ''OC'' CapNone CapNone = ([], [], Inl (SystemExit msg))) \<and>
   (\<exists>msg. hts naive_backend y8 1 [[2]] ''ARIMA'' CapNone CapNone = ([], [], Inl (SystemExit msg))) \<and>
   (\<exists>msg. hts naive_backend y8 1 [] ''OC'' CapNone CapNone = ([], [], Inl (SystemExit msg))) \<and>
   (\<exists>msg. hts naive_backend y8 1 [[3]] ''OC'' CapNone CapNone = ([], [], Inl (SystemExit msg))) \<and>
   (\<exists>msg. hts naive_backend y8 1 [[2]] ''OC'' (CapFrame 2) CapNone = ([], [], Inl (SystemExit msg)))"
proof -
  have m1: "misconfigured y8 0 [[2]] ''OC'' CapNone CapNone" by (simp add: misconfigured_def)
  have m2: "misconfigured y8 1 [[2]] ''ARIMA'' CapNone CapNone" by (simp add: misconfigured_def)
  have m3: "misconfigured y8 1 [] ''OC'' CapNone CapNone" by (simp add: misconfigured_def)
  have m4: "misconfigured y8 1 [[3]] ''OC'' CapNone CapNone"
    by (simp add: misconfigured_def y8_def)
  have m5: "misconfigured y8 1 [[2]] ''OC'' (CapFrame 2) CapNone"
    by (simp add: misconfigured_def cap_mismatch_def y8_def)
  show ?thesis
    using m1 m2 m3 m4 m5
      hts_misconfigured_exits[OF m1, of naive_backend]
      hts_misconfigured_exits[OF m2, of naive_backend]
      hts_misconfigured_exits[OF m3, of naive_backend]
      hts_misconfigured_exits[OF m4, of naive_backend]
      hts_misconfigured_exits[OF m5, of naive_backend]
    by blast
qed

subsection \<open>The error measure\<close>

lemma sum_list_abs_diff:
  fixes f a :: "real list"
  assumes "length f = length a"
  shows "sum_list (map abs (map2 (-) f a)) = (\<Sum>t<length a. \<bar>f ! t - a ! t\<bar>)"
proof -
  have "sum_list (map abs (map2 (-) f a)) =
        (\<Sum>t = 0..<length a. map abs (map2 (-) f a) ! t)"
    using assms by (simp add: sum_list_sum_nth)
  also have "\<dots> = (\<Sum>t = 0..<length a. \<bar>f ! t - a ! t\<bar>)"
    using assms by (intro sum.cong) auto
  finally show ?thesis by (simp add: atLeast0LessThan)
qed

lemma sum_list_abs_steps:
  fixes a :: "real list"
  shows "sum_list (map abs (map2 (-) (tl a) (butlast a))) =
         (\<Sum>t\<in>{1..<length a}. \<bar>a ! t - a ! (t - 1)\<bar>)"
proof -
  have len: "length (tl a) = length (butlast a)" by simp
  have "sum_list (map abs (map2 (-) (tl a) (butlast a))) =
        (\<Sum>t<length (butlast a). \<bar>tl a ! t - butlast a ! t\<bar>)"
    using len by (rule sum_list_abs_diff)
  also have "\<dots> = (\<Sum>t = 0..<length a - 1. \<bar>a ! Suc t - a ! t\<bar>)"
    by (intro sum.cong) (auto simp: nth_tl nth_butlast)
  also have "\<dots> = (\<Sum>t = Suc 0..<Suc (length a - 1). \<bar>a ! t - a ! (t - 1)\<bar>)"
    unfolding sum.shift_bounds_Suc_ivl by (simp del: sum.op_ivl_Suc)
  also have "\<dots> = (\<Sum>t\<in>{1..<length a}. \<bar>a ! t - a ! (t - 1)\<bar>)"
  proof (cases "a = []")
    case True
    then show ?thesis by simp
  next
    case False
    then have "Suc (length a - 1) = length a" by simp
    then show ?thesis by (simp only: One_nat_def)
  qed
  finally show ?thesis .
qed

lemma iloc_Inr:
  "c < length y \<Longrightarrow> list_all (\<lambda>i. i < length (y ! c)) rows \<Longrightarrow>
   iloc y rows c = Inr (map (\<lambda>i. y ! c ! i) rows)"
  by (simp add: iloc_def)

lemma list_all_tl: "list_all P xs \<Longrightarrow> list_all P (tl xs)"
  by (cases xs) auto

lemma list_all_butlast: "list_all P xs \<Longrightarrow> list_all P (butlast xs)"
  by (auto simp: list_all_iff dest: in_set_butlastD)

lemma mase_general:
  fixes y :: frame
  defines "a \<equiv> \<lambda>y key testIndex. map (\<lambda>i. y ! (key + 1) ! i) testIndex"
  assumes col: "key + 1 < length y"
    and rows: "list_all (\<lambda>i. i < length (y ! (key + 1))) testIndex"
    and cover: "length testIndex \<le> length yhat"
    and nz: "(\<Sum>t\<in>{1..<length testIndex}.
               \<bar>a y key testIndex ! t - a y key testIndex ! (t - 1)\<bar>) \<noteq> 0"
  shows "mase yhat y testIndex key =
         Inr (Fin (mase_formula (last_n (length testIndex) yhat) (a y key testIndex)))"
proof -
  let ?n = "length testIndex"
  let ?a = "a y key testIndex"
  let ?f = "last_n ?n yhat"
  have la: "length ?a = ?n" by (simp add: a_def)
  have n2: "2 \<le> ?n"
  proof (rule ccontr)
    assume "\<not> 2 \<le> ?n"
    then have "{1..<?n} = {}" by auto
    then show False using nz by simp
  qed
  have ne: "testIndex \<noteq> []" using n2 by (cases testIndex) simp_all
  have lf: "length ?f = ?n" using cover ne by (simp add: last_n_def)
  have il: "iloc y testIndex (key + 1) = Inr ?a"
    using col rows by (simp add: iloc_Inr a_def)
  have num: "mase_dividend yhat y testIndex key = Inr (\<Sum>t<?n. \<bar>?f ! t - ?a ! t\<bar>)"
    using il lf la sum_list_abs_diff[of ?f ?a] by (simp add: mase_dividend_def np_sub_def)
  have il1: "iloc y (tl testIndex) (key + 1) = Inr (tl ?a)"
    using col rows by (simp add: iloc_Inr list_all_tl a_def map_tl)
  have il0: "iloc y (butlast testIndex) (key + 1) = Inr (butlast ?a)"
    using col rows by (simp add: iloc_Inr list_all_butlast a_def map_butlast)
  have ratio: "py_true_div (int ?n) (int ?n - 1) = Inr (real ?n / (real ?n - 1))"
    using n2 by (simp add: py_true_div_def)
  have den: "mase_divisor y testIndex key =
      Inr ((real ?n / (real ?n - 1)) * (\<Sum>t\<in>{1..<?n}. \<bar>?a ! t - ?a ! (t - 1)\<bar>))"
    using ratio il1 il0 sum_list_abs_steps[of ?a] la
    by (simp add: mase_divisor_def np_sub_def)
  have "real ?n / (real ?n - 1) \<noteq> 0" using n2 ne by simp
  then have dnz: "(real ?n / (real ?n - 1)) * (\<Sum>t\<in>{1..<?n}. \<bar>?a ! t - ?a ! (t - 1)\<bar>) \<noteq> 0"
    using nz by simp
  show ?thesis
    using num den dnz la by (simp add: mase_def np_div_def mase_formula_def)
qed

lemma sum_lessThan_4: "(\<Sum>t<4. g t) = g 0 + g 1 + g 2 + g 3" for g :: "nat \<Rightarrow> real"
proof -
  have "{..<4::nat} = {0, 1, 2, 3}" by auto
  then show ?thesis by simp
qed

lemma sum_from_1_to_4: "(\<Sum>t\<in>{1..<4}. g t) = g 1 + g 2 + g 3" for g :: "nat \<Rightarrow> real"
proof -
  have "{1..<4::nat} = {1, 2, 3}" by auto
  then show ?thesis by simp
qed

text \<open>
  C6. Let \<open>a\<close> be the actual values of column \<open>key + 1\<close> over the test window and \<open>f\<close>
  the last \<open>n\<close> forecasts, \<open>n\<close> the length of the window. Where the table has the column
  and the rows, the forecast covers the window and the sum of the absolute first
  differences of \<open>a\<close> is not zero (so that the quotient of the claim is defined), the value
  computed is \<open>(\<Sum>|f\<^sub>t - a\<^sub>t|) / ((n / (n - 1)) * \<Sum>|a\<^sub>t - a\<^bsub>t-1\<^esub>|)\<close>. For the actual
  values \<open>[10,12,14,16]\<close> and the forecasts \<open>[11,11,15,15]\<close> it is \<open>1/2\<close>.
\<close>

theorem mase_is_formula:
  "(key + 1 < length y \<and>
    list_all (\<lambda>i. i < length (y ! (key + 1))) testIndex \<and>
    length testIndex \<le> length yhat \<and>
    (\<Sum>t\<in>{1..<length testIndex}.
       \<bar>map (\<lambda>i. y ! (key + 1) ! i) testIndex ! t -
        map (\<lambda>i. y ! (key + 1) ! i) testIndex ! (t - 1)\<bar>) \<noteq> 0
    \<longrightarrow>
    mase yhat y testIndex key =
      Inr (Fin (mase_formula (last_n (length testIndex) yhat)
                  (map (\<lambda>i. y ! (key + 1) ! i) testIndex)))) \<and>
   mase [11, 11, 15, 15] [[0, 1, 2, 3], [10, 12, 14, 16]] [0, 1, 2, 3] 0 = Inr (Fin (1 / 2))"
proof (intro conjI impI)
  assume "key + 1 < length y \<and>
    list_all (\<lambda>i. i < length (y ! (key + 1))) testIndex \<and>
    length testIndex \<le> length yhat \<and>
    (\<Sum>t\<in>{1..<length testIndex}.
       \<bar>map (\<lambda>i. y ! (key + 1) ! i) testIndex ! t -
        map (\<lambda>i. y ! (key + 1) ! i) testIndex ! (t - 1)\<bar>) \<noteq> 0"
  then show "mase yhat y testIndex key =
      Inr (Fin (mase_formula (last_n (length testIndex) yhat)
                  (map (\<lambda>i. y ! (key + 1) ! i) testIndex)))"
    using mase_general[of key y testIndex yhat] by blast
next
  show "mase [11, 11, 15, 15] [[0, 1, 2, 3], [10, 12, 14, 16]] [0, 1, 2, 3] 0 = Inr (Fin (1 / 2))"
    by (simp add: mase_def mase_dividend_def mase_divisor_def iloc_def last_n_def np_sub_def
        py_true_div_def np_div_def)
qed

text \<open>The theorem at the scenario of the claim: its conditions hold there, and the
  formula gives \<open>1/2\<close>.\<close>

theorem mase_is_formula_witness:
  "(0::nat) + 1 < length [[0, 1, 2, 3], [10, 12, 14, 16::real]] \<and>
   list_all (\<lambda>i. i < length ([[0, 1, 2, 3], [10, 12, 14, 16::real]] ! (0 + 1))) [0, 1, 2, 3] \<and>
   length [0, 1, 2, 3::nat] \<le> length [11, 11, 15, 15::real] \<and>
   mase_formula [11, 11, 15, 15] [10, 12, 14, 16] = 1 / 2 \<and>
   mase [11, 11, 15, 15] [[0, 1, 2, 3], [10, 12, 14, 16]] [0, 1, 2, 3] 0 =
     Inr (Fin (mase_formula [11, 11, 15, 15] [10, 12, 14, 16]))"
proof -
  have c: "(0::nat) + 1 < length [[0, 1, 2, 3], [10, 12, 14, 16::real]]" by simp
  have r: "list_all (\<lambda>i. i < length ([[0, 1, 2, 3], [10, 12, 14, 16::real]] ! (0 + 1)))
             [0, 1, 2, 3]" by simp
  have l: "length [0, 1, 2, 3::nat] \<le> length [11, 11, 15, 15::real]" by simp
  have a: "map (\<lambda>i. [[0, 1, 2, 3], [10, 12, 14, 16::real]] ! (0 + 1) ! i) [0, 1, 2, 3] =
           [10, 12, 14, 16]" by simp
  have nz: "(\<Sum>t\<in>{1..<length [0, 1, 2, 3::nat]}.
       \<bar>map (\<lambda>i. [[0, 1, 2, 3], [10, 12, 14, 16::real]] ! (0 + 1) ! i) [0, 1, 2, 3] ! t -
        map (\<lambda>i. [[0, 1, 2, 3], [10, 12, 14, 16::real]] ! (0 + 1) ! i) [0, 1, 2, 3] ! (t - 1)\<bar>)
       \<noteq> 0"
    unfolding a by (simp add: sum_from_1_to_4)
  have f: "mase_formula [11, 11, 15, 15] [10, 12, 14, 16] = 1 / 2"
    unfolding mase_formula_def by (simp add: sum_lessThan_4 sum_from_1_to_4)
  have ln: "last_n (length [0, 1, 2, 3::nat]) [11, 11, 15, 15::real] = [11, 11, 15, 15]"
    by (simp add: last_n_def)
  have "mase [11, 11, 15, 15] [[0, 1, 2, 3], [10, 12, 14, 16]] [0, 1, 2, 3] 0 =
      Inr (Fin (mase_formula (last_n (length [0, 1, 2, 3::nat]) [11, 11, 15, 15])
                  (map (\<lambda>i. [[0, 1, 2, 3], [10, 12, 14, 16::real]] ! (0 + 1) ! i) [0, 1, 2, 3])))"
    using mase_is_formula[of 0 "[[0, 1, 2, 3], [10, 12, 14, 16]]" "[0, 1, 2, 3]" "[11, 11, 15, 15]"]
      c r l nz by blast
  then have "mase [11, 11, 15, 15] [[0, 1, 2, 3], [10, 12, 14, 16]] [0, 1, 2, 3] 0 =
     Inr (Fin (mase_formula [11, 11, 15, 15] [10, 12, 14, 16]))"
    unfolding a ln .
  then show ?thesis using c r l f by blast
qed

subsection \<open>The division of the error measure\<close>

text \<open>
  C10. The division of lines 183-187 is not guarded, and both zero divisors are reached
  by calls that pass the checks. With the four-row table \<open>y4\<close> every test window has one
  point: \<^verbatim>\<open>len(testIndex)/(len(testIndex)-1)\<close> divides by zero, and the run ends with
  ZeroDivisionError after the five backend calls of the first fold. With \<open>y8c\<close> the first
  leaf is constant over the first test window: the divisor is 0, numpy returns inf, no
  exception is raised, and the run goes on to choose a method and to return forecasts.
\<close>

theorem mase_division_unguarded:
  "hts_checks y4 1 [[2]] ''cvSelect'' CapNone CapNone = None \<and>
   TimeSeriesSplit3 (length (hd y4)) = Inr [([0], [1]), ([0, 1], [2]), ([0, 1, 2], [3])] \<and>
   mase_divisor y4 [1] 0 = Inl ZeroDivisionError \<and>
   hts naive_backend y4 1 [[2]] ''cvSelect'' CapNone CapNone =
     (map (\<lambda>m. \<lparr>call_y = [[0], [3], [1], [2]], call_h = 1,
                  call_sumMat = [[1, 1], [1, 0], [0, 1]], call_nodes = [[2]],
                  call_method = m\<rparr>) methodList,
      [], Inl ZeroDivisionError) \<and>
   hts_checks y8c 1 [[2]] ''cvSelect'' CapNone CapNone = None \<and>
   TimeSeriesSplit3 (length (hd y8c)) =
     Inr [([0, 1], [2, 3]), ([0, 1, 2, 3], [4, 5]), ([0, 1, 2, 3, 4, 5], [6, 7])] \<and>
   naive_backend \<lparr>call_y = iloc_rows y8c [0, 1], call_h = 2,
                   call_sumMat = [[1, 1], [1, 0], [0, 1]], call_nodes = [[2]],
                   call_method = ''OC''\<rparr> =
     Inr [(0, [3, 5, 5, 5]), (1, [1, 2, 2, 2]), (2, [2, 3, 3, 3])] \<and>
   mase_divisor y8c [2, 3] 1 = Inr 0 \<and>
   mase_key [(0, [3, 5, 5, 5]), (1, [1, 2, 2, 2]), (2, [2, 3, 3, 3])] y8c [2, 3] 1 = Inr PosInf \<and>
   length (fst (hts naive_backend y8c 1 [[2]] ''cvSelect'' CapNone CapNone)) = 16 \<and>
   snd (hts naive_backend y8c 1 [[2]] ''cvSelect'' CapNone CapNone) =
     ([''OC''],
      Inr [(0, [3, 5, 10, 11, 19, 25, 33, 41, 41]),
           (1, [1, 2, 5, 5, 11, 16, 22, 29, 29]),
           (2, [2, 3, 5, 6, 8, 9, 11, 12, 12])])"
  by code_simp

subsection \<open>The choice of the method\<close>

lemma np_less_trans: "np_less a b \<Longrightarrow> np_less b c \<Longrightarrow> np_less a c"
  by (cases a; cases b; cases c) auto

lemma np_less_neg_trans:
  "a \<noteq> NaN \<Longrightarrow> b \<noteq> NaN \<Longrightarrow> c \<noteq> NaN \<Longrightarrow>
   \<not> np_less a b \<Longrightarrow> \<not> np_less b c \<Longrightarrow> \<not> np_less a c"
  by (cases a; cases b; cases c) auto

lemma np_less_total: "a \<noteq> NaN \<Longrightarrow> b \<noteq> NaN \<Longrightarrow> a \<noteq> b \<Longrightarrow> np_less a b \<or> np_less b a"
  by (cases a; cases b) auto

lemma fold_min:
  assumes "NaN \<notin> set (m # xs)"
  shows "fold (\<lambda>x m. if np_less x m then x else m) xs m \<in> set (m # xs) \<and>
         (\<forall>z \<in> set (m # xs). \<not> np_less z (fold (\<lambda>x m. if np_less x m then x else m) xs m))"
  using assms
proof (induction xs arbitrary: m)
  case Nil
  then show ?case by (cases m) auto
next
  case (Cons x xs)
  let ?m' = "if np_less x m then x else m"
  let ?r = "fold (\<lambda>x m. if np_less x m then x else m) xs ?m'"
  have nn: "NaN \<notin> set (?m' # xs)" using Cons.prems by auto
  have IH: "?r \<in> set (?m' # xs)" "\<forall>z \<in> set (?m' # xs). \<not> np_less z ?r"
    using Cons.IH[OF nn] by blast+
  have rn: "?r \<noteq> NaN" using IH(1) nn by metis
  have mn: "m \<noteq> NaN" "x \<noteq> NaN" using Cons.prems by auto
  have m': "\<not> np_less ?m' ?r" using IH(2) by simp
  have "\<not> np_less m ?r \<and> \<not> np_less x ?r"
  proof (cases "np_less x m")
    case True
    then have "\<not> np_less x ?r" using m' by simp
    moreover have "\<not> np_less m ?r" using True calculation np_less_trans by blast
    ultimately show ?thesis by simp
  next
    case False
    then have a: "\<not> np_less m ?r" using m' by simp
    have "\<not> np_less x ?r" using np_less_neg_trans[OF mn(2) mn(1) rn False a] .
    then show ?thesis using a by simp
  qed
  moreover have "?r \<in> set (m # x # xs)" using IH(1) by auto
  ultimately show ?case using IH(2) by simp
qed

lemma py_min_least:
  assumes "xs \<noteq> []" and "NaN \<notin> set xs"
  shows "py_min xs \<in> set xs" and "\<forall>z \<in> set xs. \<not> np_less z (py_min xs)"
proof -
  obtain m ys where xs: "xs = m # ys" using assms(1) by (cases xs) auto
  show "py_min xs \<in> set xs" "\<forall>z \<in> set xs. \<not> np_less z (py_min xs)"
    using fold_min[of m ys] assms(2) by (simp_all add: py_min_def xs)
qed

lemma py_index_first:
  "v \<in> set xs \<Longrightarrow>
   py_index xs v < length xs \<and> xs ! py_index xs v = v \<and> (\<forall>j < py_index xs v. xs ! j \<noteq> v)"
proof (induction xs)
  case Nil
  then show ?case by simp
next
  case (Cons x xs)
  show ?case
  proof (cases "x = v")
    case True
    then show ?thesis by simp
  next
    case False
    then have "v \<in> set xs" using Cons.prems by simp
    then have IH: "py_index xs v < length xs" "xs ! py_index xs v = v"
      "\<forall>j < py_index xs v. xs ! j \<noteq> v" using Cons.IH by blast+
    have "\<forall>j < Suc (py_index xs v). (x # xs) ! j \<noteq> v"
    proof (intro allI impI)
      fix j assume "j < Suc (py_index xs v)"
      then show "(x # xs) ! j \<noteq> v" using False IH(3) by (cases j) auto
    qed
    then show ?thesis using False IH by simp
  qed
qed

lemma first_minimum:
  assumes "xs \<noteq> []" and "NaN \<notin> set xs"
  defines "i \<equiv> py_index xs (py_min xs)"
  shows "i < length xs" and "\<forall>j < length xs. \<not> np_less (xs ! j) (xs ! i)"
    and "\<forall>j < i. np_less (xs ! i) (xs ! j)"
proof -
  have mem: "py_min xs \<in> set xs" and least: "\<forall>z \<in> set xs. \<not> np_less z (py_min xs)"
    using py_min_least[OF assms(1,2)] by blast+
  have idx: "i < length xs" "xs ! i = py_min xs" "\<forall>j < i. xs ! j \<noteq> py_min xs"
    using py_index_first[OF mem] by (simp_all add: i_def)
  show "i < length xs" by (rule idx(1))
  show "\<forall>j < length xs. \<not> np_less (xs ! j) (xs ! i)"
    using least idx(2) by simp
  show "\<forall>j < i. np_less (xs ! i) (xs ! j)"
  proof (intro allI impI)
    fix j assume j: "j < i"
    then have jl: "j < length xs" using idx(1) by simp
    have ne: "xs ! j \<noteq> xs ! i" using idx(2,3) j by simp
    have "xs ! j \<noteq> NaN" "xs ! i \<noteq> NaN" using assms(2) jl idx(1) by (metis nth_mem)+
    then have "np_less (xs ! i) (xs ! j) \<or> np_less (xs ! j) (xs ! i)"
      using ne np_less_total by metis
    moreover have "\<not> np_less (xs ! j) (xs ! i)" using least idx(2) jl by simp
    ultimately show "np_less (xs ! i) (xs ! j)" by blast
  qed
qed

lemma append_mases_length:
  "append_mases y testIndex key ynews acc = Inr acc' \<Longrightarrow> length acc' = length acc"
proof (induction y testIndex key ynews acc arbitrary: acc' rule: append_mases.induct)
  case (1 y testIndex key ynew ynews MASE acc)
  then show ?case by (auto split: sum.splits)
qed auto

lemma score_keys_length:
  "score_keys y testIndex ynews keys acc = Inr acc' \<Longrightarrow> length acc' = length acc"
proof (induction keys arbitrary: acc)
  case Nil
  then show ?case by simp
next
  case (Cons key keys)
  then show ?case by (auto split: sum.splits dest: append_mases_length)
qed

lemma cv_folds_length:
  "cv_folds fitForecast y sumMat nodes folds calls acc = (calls', Inr acc') \<Longrightarrow>
   length acc' = length acc"
proof (induction folds arbitrary: calls acc)
  case Nil
  then show ?case by simp
next
  case (Cons fd folds)
  obtain trainIndex testIndex where f: "fd = (trainIndex, testIndex)" by (cases fd)
  show ?case using Cons.prems Cons.IH unfolding f
    by (auto split: prod.splits sum.splits dest: score_keys_length)
qed

text \<open>
  C4, as amended. In cvSelect mode, when the checks pass, the folds are scored without an
  exception and no average is nan, \<^verbatim>\<open>hts\<close> makes one more backend call, on the full
  table at the requested horizon, with a method whose average MASE no other method's
  average is below, and returns what that call returns. Among the methods of minimal
  average it is the first in the order of \<open>methodList\<close>, which is optimal combination,
  forecast proportions, proportions of historical averages, average historical
  proportions, bottom-up: every method before it in that order has a strictly larger
  average.
\<close>

theorem cv_selects_first_minimum:
  assumes chk: "hts_checks y h nodes ''cvSelect'' cap capF = None"
    and sm: "SummingMat nodes = Inr sumMat"
    and sp: "TimeSeriesSplit3 (length (hd y)) = Inr folds"
    and cv: "cv_folds fitForecast y sumMat nodes folds [] (replicate 5 []) = (calls, Inr MASEs)"
    and nn: "NaN \<notin> set (map np_mean MASEs)"
  shows "\<exists>i<5.
           fst (hts fitForecast y h nodes ''cvSelect'' cap capF) =
             calls @ [\<lparr>call_y = y, call_h = h, call_sumMat = sumMat, call_nodes = nodes,
                        call_method = methodList ! i\<rparr>] \<and>
           snd (snd (hts fitForecast y h nodes ''cvSelect'' cap capF)) =
             fitForecast \<lparr>call_y = y, call_h = h, call_sumMat = sumMat, call_nodes = nodes,
                           call_method = methodList ! i\<rparr> \<and>
           (\<forall>j<5. \<not> np_less (np_mean (MASEs ! j)) (np_mean (MASEs ! i))) \<and>
           (\<forall>j<i. np_less (np_mean (MASEs ! i)) (np_mean (MASEs ! j)))"
proof -
  let ?choices = "map np_mean MASEs"
  let ?i = "py_index ?choices (py_min ?choices)"
  let ?c = "\<lparr>call_y = y, call_h = h, call_sumMat = sumMat, call_nodes = nodes,
              call_method = methodList ! ?i\<rparr>"
  have len: "length MASEs = 5" using cv_folds_length[OF cv] by simp
  then have ne: "?choices \<noteq> []" by auto
  have i: "?i < length ?choices"
    and least: "\<forall>j < length ?choices. \<not> np_less (?choices ! j) (?choices ! ?i)"
    and first: "\<forall>j < ?i. np_less (?choices ! ?i) (?choices ! j)"
    using first_minimum[OF ne nn] by blast+
  have i5: "?i < 5" using i len by simp
  have "y \<noteq> []" using chk by (auto simp: hts_checks_def split: if_splits)
  then obtain time cols where y: "y = time # cols" by (cases y) auto
  have run: "hts fitForecast y h nodes ''cvSelect'' cap capF =
      (case fitForecast ?c of
         Inl e \<Rightarrow> (calls @ [?c], [], Inl e)
       | Inr ynew \<Rightarrow> (calls @ [?c], [methodList ! ?i], Inr ynew))"
    using chk sm sp cv unfolding y by (simp add: hts_def cv_choice_def Let_def)
  have a: "fst (hts fitForecast y h nodes ''cvSelect'' cap capF) = calls @ [?c]"
    unfolding run by (simp split: sum.splits)
  have b: "snd (snd (hts fitForecast y h nodes ''cvSelect'' cap capF)) = fitForecast ?c"
    unfolding run by (simp split: sum.splits)
  have c: "\<forall>j<5. \<not> np_less (np_mean (MASEs ! j)) (np_mean (MASEs ! ?i))"
    using least len i5 by simp
  have d: "\<forall>j<?i. np_less (np_mean (MASEs ! ?i)) (np_mean (MASEs ! j))"
    using first len i5 by simp
  show ?thesis using i5 a b c d by blast
qed

lemma means8:
  "map np_mean [scores8, scores8, scores8, scores8, scores8] =
     [Fin (3323 / 1890), Fin (3323 / 1890), Fin (3323 / 1890), Fin (3323 / 1890),
      Fin (3323 / 1890)]"
  by code_simp

text \<open>The theorem at the run on \<open>y8\<close> with \<open>naive_backend\<close>.\<close>

theorem cv_selects_first_minimum_witness:
  "hts_checks y8 1 [[2]] ''cvSelect'' CapNone CapNone = None \<and>
   SummingMat [[2]] = Inr sumMat2 \<and>
   TimeSeriesSplit3 (length (hd y8)) = Inr folds8 \<and>
   snd (cv_folds naive_backend y8 sumMat2 [[2]] folds8 [] (replicate 5 [])) =
     Inr [scores8, scores8, scores8, scores8, scores8] \<and>
   NaN \<notin> set (map np_mean [scores8, scores8, scores8, scores8, scores8]) \<and>
   (\<exists>i<5.
       fst (hts naive_backend y8 1 [[2]] ''cvSelect'' CapNone CapNone) =
         fst (cv_folds naive_backend y8 sumMat2 [[2]] folds8 [] (replicate 5 [])) @
         [\<lparr>call_y = y8, call_h = 1, call_sumMat = sumMat2, call_nodes = [[2]],
            call_method = methodList ! i\<rparr>] \<and>
       snd (snd (hts naive_backend y8 1 [[2]] ''cvSelect'' CapNone CapNone)) =
         naive_backend \<lparr>call_y = y8, call_h = 1, call_sumMat = sumMat2, call_nodes = [[2]],
                          call_method = methodList ! i\<rparr> \<and>
       (\<forall>j<5. \<not> np_less (np_mean ([scores8, scores8, scores8, scores8, scores8] ! j))
                          (np_mean ([scores8, scores8, scores8, scores8, scores8] ! i))) \<and>
       (\<forall>j<i. np_less (np_mean ([scores8, scores8, scores8, scores8, scores8] ! i))
                       (np_mean ([scores8, scores8, scores8, scores8, scores8] ! j))))"
proof -
  have chk: "hts_checks y8 1 [[2]] ''cvSelect'' CapNone CapNone = None" by code_simp
  have sm: "SummingMat [[2]] = Inr sumMat2" by code_simp
  have sp: "TimeSeriesSplit3 (length (hd y8)) = Inr folds8" by code_simp
  have s: "snd (cv_folds naive_backend y8 sumMat2 [[2]] folds8 [] (replicate 5 [])) =
     Inr [scores8, scores8, scores8, scores8, scores8]" by code_simp
  have cv: "cv_folds naive_backend y8 sumMat2 [[2]] folds8 [] (replicate 5 []) =
     (fst (cv_folds naive_backend y8 sumMat2 [[2]] folds8 [] (replicate 5 [])),
      Inr [scores8, scores8, scores8, scores8, scores8])"
    using s by (simp add: prod_eq_iff)
  have nn: "NaN \<notin> set (map np_mean [scores8, scores8, scores8, scores8, scores8])"
    unfolding means8 by simp
  show ?thesis
    using chk sm sp s nn cv_selects_first_minimum[OF chk sm sp cv nn] by blast
qed

text \<open>
  C4 as stated fails in its order of preference. \<open>naive_backend\<close> forecasts the same
  for every method, so on \<open>y8\<close> the five averages are equal. The claim has bottom-up
  chosen among equals; \<^verbatim>\<open>hts\<close> prints and refits \<^verbatim>\<open>OC\<close>, the first entry of
  \<open>methodList\<close>.
\<close>

theorem tie_break_counterexample:
  "snd (cv_folds naive_backend y8 sumMat2 [[2]] folds8 [] (replicate 5 [])) =
     Inr [scores8, scores8, scores8, scores8, scores8] \<and>
   map np_mean [scores8, scores8, scores8, scores8, scores8] =
     [Fin (3323 / 1890), Fin (3323 / 1890), Fin (3323 / 1890), Fin (3323 / 1890),
      Fin (3323 / 1890)] \<and>
   fst (snd (hts naive_backend y8 1 [[2]] ''cvSelect'' CapNone CapNone)) = [''OC''] \<and>
   ''OC'' \<noteq> ''BU''"
  by code_simp

subsection \<open>What is scored\<close>

lemma fit_all_Inr:
  "fit_all fitForecast ytrain h sumMat nodes ms calls = (calls', Inr ynews) \<Longrightarrow>
   length ynews = length ms \<and>
   (\<forall>i<length ms.
      fitForecast \<lparr>call_y = ytrain, call_h = h, call_sumMat = sumMat, call_nodes = nodes,
                    call_method = ms ! i\<rparr> = Inr (ynews ! i))"
proof (induction ms arbitrary: calls calls' ynews)
  case Nil
  then show ?case by simp
next
  case (Cons m ms)
  let ?c = "\<lparr>call_y = ytrain, call_h = h, call_sumMat = sumMat, call_nodes = nodes,
              call_method = m\<rparr>"
  obtain ynew where y1: "fitForecast ?c = Inr ynew"
    using Cons.prems by (cases "fitForecast ?c") (auto simp: Let_def)
  obtain calls1 r where rest: "fit_all fitForecast ytrain h sumMat nodes ms (calls @ [?c]) = (calls1, r)"
    by (cases "fit_all fitForecast ytrain h sumMat nodes ms (calls @ [?c])")
  obtain ynews' where r: "r = Inr ynews'" and ys: "ynews = ynew # ynews'"
    using Cons.prems y1 rest by (cases r) (auto simp: Let_def)
  have IH: "length ynews' = length ms"
    "\<forall>i<length ms. fitForecast \<lparr>call_y = ytrain, call_h = h, call_sumMat = sumMat,
        call_nodes = nodes, call_method = ms ! i\<rparr> = Inr (ynews' ! i)"
    using Cons.IH[of "calls @ [?c]" calls1 ynews'] rest r by auto
  have "\<forall>i<length (m # ms). fitForecast \<lparr>call_y = ytrain, call_h = h, call_sumMat = sumMat,
        call_nodes = nodes, call_method = (m # ms) ! i\<rparr> = Inr (ynews ! i)"
  proof (intro allI impI)
    fix i assume "i < length (m # ms)"
    then show "fitForecast \<lparr>call_y = ytrain, call_h = h, call_sumMat = sumMat,
        call_nodes = nodes, call_method = (m # ms) ! i\<rparr> = Inr (ynews ! i)"
      using y1 IH(2) ys by (cases i) auto
  qed
  then show ?case using IH(1) ys by simp
qed

lemma append_mases_Inr:
  "append_mases y testIndex key ynews acc = Inr acc' \<Longrightarrow> length ynews = length acc \<Longrightarrow>
   \<forall>i<length acc. \<exists>v. mase_key (ynews ! i) y testIndex key = Inr v \<and> acc' ! i = acc ! i @ [v]"
proof (induction y testIndex key ynews acc arbitrary: acc' rule: append_mases.induct)
  case (1 y testIndex key ynew ynews MASE acc)
  obtain v where v: "mase_key ynew y testIndex key = Inr v"
    using "1.prems"(1) by (cases "mase_key ynew y testIndex key") auto
  obtain acc1 where a1: "append_mases y testIndex key ynews acc = Inr acc1"
    and acc': "acc' = (MASE @ [v]) # acc1"
    using "1.prems"(1) v by (cases "append_mases y testIndex key ynews acc") auto
  have IH: "\<forall>i<length acc. \<exists>v. mase_key (ynews ! i) y testIndex key = Inr v \<and>
              acc1 ! i = acc ! i @ [v]"
    using "1.IH"[OF v a1] "1.prems"(2) by simp
  show ?case
  proof (intro allI impI)
    fix i assume "i < length (MASE # acc)"
    then show "\<exists>v. mase_key ((ynew # ynews) ! i) y testIndex key = Inr v \<and>
                  acc' ! i = (MASE # acc) ! i @ [v]"
      using v IH acc' by (cases i) auto
  qed
qed auto

lemma score_keys_Inr:
  "score_keys y testIndex ynews keys acc = Inr acc' \<Longrightarrow> length ynews = length acc \<Longrightarrow>
   \<forall>i<length acc. \<exists>vs. length vs = length keys \<and> acc' ! i = acc ! i @ vs \<and>
      (\<forall>j<length keys. mase_key (ynews ! i) y testIndex (keys ! j) = Inr (vs ! j))"
proof (induction keys arbitrary: acc)
  case Nil
  then show ?case by simp
next
  case (Cons key keys)
  obtain acc1 where a1: "append_mases y testIndex key ynews acc = Inr acc1"
    and rest: "score_keys y testIndex ynews keys acc1 = Inr acc'"
    using Cons.prems(1) by (cases "append_mases y testIndex key ynews acc") auto
  have l1: "length acc1 = length acc" using a1 by (rule append_mases_length)
  have one: "\<forall>i<length acc. \<exists>v. mase_key (ynews ! i) y testIndex key = Inr v \<and>
               acc1 ! i = acc ! i @ [v]"
    using append_mases_Inr[OF a1 Cons.prems(2)] .
  have IH: "\<forall>i<length acc1. \<exists>vs. length vs = length keys \<and> acc' ! i = acc1 ! i @ vs \<and>
      (\<forall>j<length keys. mase_key (ynews ! i) y testIndex (keys ! j) = Inr (vs ! j))"
    using Cons.IH[OF rest] Cons.prems(2) l1 by simp
  show ?case
  proof (intro allI impI)
    fix i assume i: "i < length acc"
    obtain v where v: "mase_key (ynews ! i) y testIndex key = Inr v" "acc1 ! i = acc ! i @ [v]"
      using one i by blast
    obtain vs where vs: "length vs = length keys" "acc' ! i = acc1 ! i @ vs"
      "\<forall>j<length keys. mase_key (ynews ! i) y testIndex (keys ! j) = Inr (vs ! j)"
      using IH i l1 by auto
    have "\<forall>j<length (key # keys).
            mase_key (ynews ! i) y testIndex ((key # keys) ! j) = Inr ((v # vs) ! j)"
    proof (intro allI impI)
      fix j assume "j < length (key # keys)"
      then show "mase_key (ynews ! i) y testIndex ((key # keys) ! j) = Inr ((v # vs) ! j)"
        using v(1) vs(3) by (cases j) auto
    qed
    then show "\<exists>vs. length vs = length (key # keys) \<and> acc' ! i = acc ! i @ vs \<and>
      (\<forall>j<length (key # keys). mase_key (ynews ! i) y testIndex ((key # keys) ! j) = Inr (vs ! j))"
      using v(2) vs(1,2) by (intro exI[of _ "v # vs"]) simp
  qed
qed

lemma fold_scored:
  assumes fit: "fit_all fitForecast (iloc_rows y trainIndex) (int (length testIndex)) sumMat nodes
                  methodList calls = (calls1, Inr ynews)"
    and sc: "score_keys y testIndex ynews (map fst (hd ynews)) acc = Inr acc1"
    and len: "length acc = 5"
  shows "\<forall>i<5. \<exists>vs. acc1 ! i = acc ! i @ vs \<and>
           scored_in_fold fitForecast y sumMat nodes (trainIndex, testIndex) i vs"
proof (intro allI impI)
  fix i :: nat assume i: "i < 5"
  have ml: "length methodList = 5" by (simp add: methodList_def)
  have fa: "length ynews = 5"
    "\<forall>i<5. fitForecast (fold_call y sumMat nodes (trainIndex, testIndex) (methodList ! i)) =
             Inr (ynews ! i)"
    using fit_all_Inr[OF fit] ml by (simp_all add: fold_call_def)
  have hd0: "hd ynews = ynews ! 0" using fa(1) by (cases ynews) auto
  have oc: "methodList ! 0 = ''OC''" by (simp add: methodList_def)
  have y1: "fitForecast (fold_call y sumMat nodes (trainIndex, testIndex) ''OC'') = Inr (hd ynews)"
    using fa(2) hd0 oc by (metis zero_less_numeral)
  obtain vs where vs: "length vs = length (map fst (hd ynews))" "acc1 ! i = acc ! i @ vs"
    "\<forall>j<length (map fst (hd ynews)).
        mase_key (ynews ! i) y testIndex (map fst (hd ynews) ! j) = Inr (vs ! j)"
    using score_keys_Inr[OF sc] fa(1) len i by auto
  have yi: "fitForecast (fold_call y sumMat nodes (trainIndex, testIndex) (methodList ! i)) =
          Inr (ynews ! i)" using fa(2) i by simp
  have "list_all (\<lambda>j. mase_key (ynews ! i) y (snd (trainIndex, testIndex)) (fst (hd ynews ! j)) =
             Inr (vs ! j)) [0..<length (hd ynews)]"
    using vs(3) by (simp add: list_all_iff)
  then have "scored_in_fold fitForecast y sumMat nodes (trainIndex, testIndex) i vs"
    using y1 yi vs(1) by (simp add: scored_in_fold_def)
  then show "\<exists>vs. acc1 ! i = acc ! i @ vs \<and>
           scored_in_fold fitForecast y sumMat nodes (trainIndex, testIndex) i vs"
    using vs(2) by blast
qed

lemma cv_folds_Inr:
  "cv_folds fitForecast y sumMat nodes folds calls acc = (calls', Inr acc') \<Longrightarrow>
   length acc = 5 \<Longrightarrow>
   \<forall>i<5. \<exists>vss. length vss = length folds \<and> acc' ! i = acc ! i @ concat vss \<and>
      (\<forall>f<length folds. scored_in_fold fitForecast y sumMat nodes (folds ! f) i (vss ! f))"
proof (induction folds arbitrary: calls acc)
  case Nil
  then show ?case by simp
next
  case (Cons fd folds)
  obtain trainIndex testIndex where fd: "fd = (trainIndex, testIndex)" by (cases fd)
  let ?fit = "fit_all fitForecast (iloc_rows y trainIndex) (int (length testIndex)) sumMat nodes
                methodList calls"
  obtain calls1 r where fit0: "?fit = (calls1, r)" by (cases ?fit)
  obtain ynews where fit: "?fit = (calls1, Inr ynews)"
    using Cons.prems(1) fit0 unfolding fd by (cases r) auto
  obtain acc1 where sc: "score_keys y testIndex ynews (map fst (hd ynews)) acc = Inr acc1"
    and rest: "cv_folds fitForecast y sumMat nodes folds calls1 acc1 = (calls', Inr acc')"
    using Cons.prems(1) fit unfolding fd
    by (cases "score_keys y testIndex ynews (map fst (hd ynews)) acc") auto
  have l1: "length acc1 = 5" using score_keys_length[OF sc] Cons.prems(2) by simp
  have this_fold: "\<forall>i<5. \<exists>vs. acc1 ! i = acc ! i @ vs \<and>
           scored_in_fold fitForecast y sumMat nodes (trainIndex, testIndex) i vs"
    using fold_scored[OF fit sc Cons.prems(2)] .
  have IH: "\<forall>i<5. \<exists>vss. length vss = length folds \<and> acc' ! i = acc1 ! i @ concat vss \<and>
      (\<forall>f<length folds. scored_in_fold fitForecast y sumMat nodes (folds ! f) i (vss ! f))"
    using Cons.IH[OF rest l1] .
  show ?case
  proof (intro allI impI)
    fix i :: nat assume i: "i < 5"
    obtain vs where vs: "acc1 ! i = acc ! i @ vs"
      "scored_in_fold fitForecast y sumMat nodes (trainIndex, testIndex) i vs"
      using this_fold i by blast
    obtain vss where vss: "length vss = length folds" "acc' ! i = acc1 ! i @ concat vss"
      "\<forall>f<length folds. scored_in_fold fitForecast y sumMat nodes (folds ! f) i (vss ! f)"
      using IH i by blast
    have "\<forall>f<length (fd # folds).
            scored_in_fold fitForecast y sumMat nodes ((fd # folds) ! f) i ((vs # vss) ! f)"
    proof (intro allI impI)
      fix f assume "f < length (fd # folds)"
      then show "scored_in_fold fitForecast y sumMat nodes ((fd # folds) ! f) i ((vs # vss) ! f)"
        using vs(2) vss(3) fd by (cases f) auto
    qed
    then show "\<exists>vss. length vss = length (fd # folds) \<and> acc' ! i = acc ! i @ concat vss \<and>
      (\<forall>f<length (fd # folds).
          scored_in_fold fitForecast y sumMat nodes ((fd # folds) ! f) i (vss ! f))"
      using vs(1) vss(1,2) by (intro exI[of _ "vs # vss"]) simp
  qed
qed

lemma foldl_np_add_Fin: "foldl np_add (Fin a) (map Fin xs) = Fin (a + sum_list xs)"
  by (induction xs arbitrary: a) (auto simp: add.assoc)

lemma np_mean_Fin: "xs \<noteq> [] \<Longrightarrow> np_mean (map Fin xs) = Fin (sum_list xs / real (length xs))"
  by (simp add: np_mean_def foldl_np_add_Fin)

text \<open>
  C5, as amended. In cvSelect mode, for each fold and each candidate method exactly one
  MASE value is accumulated per key of the forecasts that the backend returned for the
  first method (\<^verbatim>\<open>ynew1.keys()\<close>), the value for key \<open>k\<close> being computed from the method's
  forecast under \<open>k\<close> and column \<open>k + 1\<close> of the table; \<^verbatim>\<open>hts\<close> does not restrict the keys
  to the leaves. Each method's score in the choice is \<^verbatim>\<open>np.mean\<close> of all its values, over
  all folds and all keys, which for finite values is their sum divided by their number.
\<close>

theorem cv_scores_one_per_key:
  assumes cv: "cv_folds fitForecast y sumMat nodes folds [] (replicate 5 []) = (calls, Inr MASEs)"
  shows "length MASEs = 5 \<and>
         (\<forall>i<5. \<exists>vss. length vss = length folds \<and> MASEs ! i = concat vss \<and>
            (\<forall>f<length folds.
                scored_in_fold fitForecast y sumMat nodes (folds ! f) i (vss ! f))) \<and>
         cv_choice MASEs = methodList ! py_index (map np_mean MASEs) (py_min (map np_mean MASEs)) \<and>
         (\<forall>i<5. \<forall>xs. xs \<noteq> [] \<and> MASEs ! i = map Fin xs \<longrightarrow>
            np_mean (MASEs ! i) = Fin (sum_list xs / real (length xs)))"
proof (intro conjI)
  show "length MASEs = 5" using cv_folds_length[OF cv] by simp
  have "\<forall>i<5. \<exists>vss. length vss = length folds \<and>
          MASEs ! i = replicate 5 [] ! i @ concat vss \<and>
          (\<forall>f<length folds. scored_in_fold fitForecast y sumMat nodes (folds ! f) i (vss ! f))"
    using cv_folds_Inr[OF cv] by simp
  then show "\<forall>i<5. \<exists>vss. length vss = length folds \<and> MASEs ! i = concat vss \<and>
            (\<forall>f<length folds.
                scored_in_fold fitForecast y sumMat nodes (folds ! f) i (vss ! f))"
    by simp
  show "cv_choice MASEs = methodList ! py_index (map np_mean MASEs) (py_min (map np_mean MASEs))"
    by (simp add: cv_choice_def Let_def)
  show "\<forall>i<5. \<forall>xs. xs \<noteq> [] \<and> MASEs ! i = map Fin xs \<longrightarrow>
            np_mean (MASEs ! i) = Fin (sum_list xs / real (length xs))"
    by (simp add: np_mean_Fin)
qed

text \<open>The theorem at the run on \<open>y8\<close> with \<open>naive_backend\<close>; in the first fold the last
  method accumulates the three values shown.\<close>

theorem cv_scores_one_per_key_witness:
  "snd (cv_folds naive_backend y8 sumMat2 [[2]] folds8 [] (replicate 5 [])) =
     Inr [scores8, scores8, scores8, scores8, scores8] \<and>
   scored_in_fold naive_backend y8 sumMat2 [[2]] (folds8 ! 0) 4 [Fin (3 / 2), Fin (7 / 6), Fin (5 / 2)] \<and>
   length [scores8, scores8, scores8, scores8, scores8] = 5 \<and>
   (\<exists>vss. length vss = length folds8 \<and>
        [scores8, scores8, scores8, scores8, scores8] ! 4 = concat vss \<and>
        (\<forall>f<length folds8.
            scored_in_fold naive_backend y8 sumMat2 [[2]] (folds8 ! f) 4 (vss ! f))) \<and>
   cv_choice [scores8, scores8, scores8, scores8, scores8] =
     methodList ! py_index (map np_mean [scores8, scores8, scores8, scores8, scores8])
                    (py_min (map np_mean [scores8, scores8, scores8, scores8, scores8])) \<and>
   scores8 = map Fin [3 / 2, 7 / 6, 5 / 2, 3 / 2, 13 / 10, 5 / 2, 3 / 2, 19 / 14, 5 / 2] \<and>
   np_mean ([scores8, scores8, scores8, scores8, scores8] ! 4) =
     Fin (sum_list [3 / 2, 7 / 6, 5 / 2, 3 / 2, 13 / 10, 5 / 2, 3 / 2, 19 / 14, 5 / 2] /
          real (length [3 / 2, 7 / 6, 5 / 2, 3 / 2, 13 / 10, 5 / 2, 3 / 2, 19 / 14, 5 / 2 :: real]))"
proof -
  have s: "snd (cv_folds naive_backend y8 sumMat2 [[2]] folds8 [] (replicate 5 [])) =
     Inr [scores8, scores8, scores8, scores8, scores8]" by code_simp
  have cv: "cv_folds naive_backend y8 sumMat2 [[2]] folds8 [] (replicate 5 []) =
     (fst (cv_folds naive_backend y8 sumMat2 [[2]] folds8 [] (replicate 5 [])),
      Inr [scores8, scores8, scores8, scores8, scores8])"
    using s by (simp add: prod_eq_iff)
  have f0: "scored_in_fold naive_backend y8 sumMat2 [[2]] (folds8 ! 0) 4
              [Fin (3 / 2), Fin (7 / 6), Fin (5 / 2)]" by code_simp
  have xs: "scores8 = map Fin [3 / 2, 7 / 6, 5 / 2, 3 / 2, 13 / 10, 5 / 2, 3 / 2, 19 / 14, 5 / 2]"
    by (simp add: scores8_def)
  have sel: "[scores8, scores8, scores8, scores8, scores8] ! 4 =
      map Fin [3 / 2, 7 / 6, 5 / 2, 3 / 2, 13 / 10, 5 / 2, 3 / 2, 19 / 14, 5 / 2]"
    using xs by simp
  have ne: "[3 / 2, 7 / 6, 5 / 2, 3 / 2, 13 / 10, 5 / 2, 3 / 2, 19 / 14, 5 / 2 :: real] \<noteq> []"
    by simp
  have four: "(4::nat) < 5" by simp
  note concl = cv_scores_one_per_key[OF cv]
  have a: "length [scores8, scores8, scores8, scores8, scores8] = 5" by simp
  have b: "\<exists>vss. length vss = length folds8 \<and>
        [scores8, scores8, scores8, scores8, scores8] ! 4 = concat vss \<and>
        (\<forall>f<length folds8.
            scored_in_fold naive_backend y8 sumMat2 [[2]] (folds8 ! f) 4 (vss ! f))"
    using concl four by blast
  have c: "cv_choice [scores8, scores8, scores8, scores8, scores8] =
     methodList ! py_index (map np_mean [scores8, scores8, scores8, scores8, scores8])
                    (py_min (map np_mean [scores8, scores8, scores8, scores8, scores8]))"
    using concl by blast
  have d: "np_mean ([scores8, scores8, scores8, scores8, scores8] ! 4) =
     Fin (sum_list [3 / 2, 7 / 6, 5 / 2, 3 / 2, 13 / 10, 5 / 2, 3 / 2, 19 / 14, 5 / 2] /
          real (length [3 / 2, 7 / 6, 5 / 2, 3 / 2, 13 / 10, 5 / 2, 3 / 2, 19 / 14, 5 / 2 :: real]))"
    using concl four ne sel by blast
  show ?thesis using s f0 a b c xs d by blast
qed

text \<open>
  C5 as stated fails with a backend that returns one forecast per node, as the
  specification has it: for the descriptor \<open>[[2]]\<close>, with two leaves, every method
  accumulates nine values over the three folds, not six, and the first of them, for key
  0, is the MASE of the forecast of the total against column 1, the total.
\<close>

theorem total_is_scored_counterexample:
  "SummingMat [[2]] = Inr sumMat2 \<and>
   TimeSeriesSplit3 (length (hd y8)) = Inr folds8 \<and>
   snd (cv_folds naive_backend y8 sumMat2 [[2]] folds8 [] (replicate 5 [])) =
     Inr [scores8, scores8, scores8, scores8, scores8] \<and>
   length scores8 = 9 \<and>
   length folds8 * leaf_count [[2]] = 6 \<and>
   naive_backend (fold_call y8 sumMat2 [[2]] (folds8 ! 0) ''OC'') =
     Inr [(0, [3, 5, 5, 5]), (1, [1, 2, 2, 2]), (2, [2, 3, 3, 3])] \<and>
   mase_key [(0, [3, 5, 5, 5]), (1, [1, 2, 2, 2]), (2, [2, 3, 3, 3])] y8 (snd (folds8 ! 0)) 0 =
     Inr (scores8 ! 0) \<and>
   mase [3, 5, 5, 5] [[0, 1, 2, 3, 4, 5, 6, 7], [3, 5, 9, 13, 19, 25, 33, 41]] [2, 3] 0 =
     Inr (scores8 ! 0) \<and>
   y8 ! 1 = [3, 5, 9, 13, 19, 25, 33, 41]"
  by code_simp

section \<open>The hierarchy builder on concrete inputs\<close>

text \<open>
  C8 fails on the code. The tag columns below have the level-1 values \<open>a\<close>, \<open>b\<close> and the
  level-2 values \<open>a\<close>, \<open>b\<close>; the table built has the eight columns shown, each level-1
  node with two children. \<^verbatim>\<open>orderHier\<close> counts with \<^verbatim>\<open>str.count\<close>, the number of
  occurrences of the parent's name anywhere in the child's: \<open>a\<close> occurs twice in \<open>a_a\<close>
  and once in \<open>b_a\<close>. It returns \<open>[[2],[4,4]]\<close>, which sums to 10 and not to the number
  of columns minus 2, where counting the names that start with the parent's name gives
  \<open>[2,2]\<close>.
\<close>

theorem orderHier_counts_occurrences:
  "plain_tags ''value'' [[''a'', ''a'', ''b'', ''b''], [''a'', ''b'', ''a'', ''b'']] \<and>
   orderHier [[''a'', ''a'', ''b'', ''b''], [''a'', ''b'', ''a'', ''b'']]
      (Some 1) (Some 2) None None =
     Inr ([''time'', ''total'', ''a'', ''b'', ''a_a'', ''a_b'', ''b_a'', ''b_b''],
          [[2], [4, 4]]) \<and>
   map (\<lambda>i. py_count i ''a'') [''a_a'', ''a_b'', ''b_a'', ''b_b''] = [2, 1, 1, 0] \<and>
   sum_list (map sum_list [[2], [4, 4::nat]]) = 10 \<and>
   length [''time'', ''total'', ''a'', ''b'', ''a_a'', ''a_b'', ''b_a'', ''b_b''] - 2 = 6 \<and>
   count_prefixed [''time'', ''total'', ''a'', ''b'', ''a_a'', ''a_b'', ''b_a'', ''b_b'']
     [2, 3] 4 8 = [2, 2]"
  by code_simp

text \<open>
  C9 fails on the code. With \<open>col1 = 1\<close>, \<open>col2 = 1\<close>, \<open>col3 = 2\<close> the comparison of line 279
  is \<^verbatim>\<open>1 == (1 | 1) == (2 | 1) == 2\<close>, false at \<open>1 == 3\<close>: the checks pass, and
  \<^verbatim>\<open>orderHier\<close> goes on to build the level-1 series until \<^verbatim>\<open>orderList.index(3)\<close> raises
  ValueError. Equal \<open>col2\<close> and \<open>col3\<close> pass in the same way, and \<open>col4\<close> is not
  compared with anything. The comparison holds only when \<open>col1 = col3\<close> and the bits of
  \<open>col2\<close> are among those of \<open>col1\<close>.
\<close>

theorem orderHier_equal_levels_pass:
  "plain_tags ''value''
     [[''x'', ''x'', ''y'', ''y''], [''p'', ''q'', ''p'', ''q''], [''u'', ''u'', ''u'', ''v'']] \<and>
   level_clash 1 1 (Some 2) = Inr False \<and>
   orderHier_checks (Some 1) (Some 1) (Some 2) None = None \<and>
   orderHier [[''x'', ''x'', ''y'', ''y''], [''p'', ''q'', ''p'', ''q''], [''u'', ''u'', ''u'', ''v'']]
      (Some 1) (Some 1) (Some 2) None = Inl ValueError \<and>
   orderHier_checks (Some 1) (Some 2) (Some 2) None = None \<and>
   orderHier_checks (Some 1) (Some 2) (Some 3) (Some 1) = None \<and>
   orderHier_checks (Some 1) (Some 1) (Some 1) None =
     Some (SystemExit ''col1, col2, and col3 should all have different values'')"
  by code_simp

lemma level_clash_iff:
  "level_clash col1 col2 (Some col3) = Inr True \<longleftrightarrow> col1 = col3 \<and> or col2 col1 = col1"
  by (auto simp: level_clash_def or.commute)

text \<open>With two tag columns and three level assignments, the third refers to the value
  column: the names of level 3 cannot be built.\<close>

lemma orderHier_value_column_as_tag:
  "orderHier [[''x'', ''x'', ''y'', ''y''], [''p'', ''q'', ''p'', ''q'']]
      (Some 1) (Some 2) (Some 3) None = Inl TypeError \<and>
   orderHier [[''x'', ''x'', ''y'', ''y''], [''p'', ''q'', ''p'', ''q'']]
      (Some 1) (Some 2) (Some 3) (Some 4) = Inl IndexError"
  by code_simp

end
